theory Spec2Isabelle
  imports Complex_Main "HOL-Library.AList"
begin

section \<open>Python library operations used by \<^verbatim>\<open>sync_tool.py\<close>\<close>

text \<open>
  Strings are lists of characters. Only ASCII characters are given a special meaning
  (white space, digits); every other character is an ordinary symbol.
\<close>

text \<open>\<^verbatim>\<open>str.isspace\<close> on one ASCII character: TAB, LF, VT, FF, CR, FS, GS, RS, US, SPACE.\<close>

definition isspace :: "char \<Rightarrow> bool" where
  "isspace c = (c \<in> set [CHR 0x09, CHR 0x0A, CHR 0x0B, CHR 0x0C, CHR 0x0D,
                           CHR 0x1C, CHR 0x1D, CHR 0x1E, CHR 0x1F, CHR 0x20])"

text \<open>\<^verbatim>\<open>s.strip()\<close>: leading and trailing white space removed.\<close>

definition strip :: "string \<Rightarrow> string" where
  "strip s = rev (dropWhile isspace (rev (dropWhile isspace s)))"

text \<open>\<^verbatim>\<open>s.split(sep)\<close> for a one-character separator: never the empty list.\<close>

fun str_split :: "char \<Rightarrow> string \<Rightarrow> string list" where
  "str_split sep [] = [[]]"
| "str_split sep (c # cs) =
     (if c = sep then [] # str_split sep cs
      else (case str_split sep cs of [] \<Rightarrow> [[c]] | w # ws \<Rightarrow> (c # w) # ws))"

text \<open>\<^verbatim>\<open>sep.join(xs)\<close>.\<close>

fun str_join :: "string \<Rightarrow> string list \<Rightarrow> string" where
  "str_join sep [] = []"
| "str_join sep [x] = x"
| "str_join sep (x # y # zs) = x @ sep @ str_join sep (y # zs)"

text \<open>\<^verbatim>\<open>s.replace(old, new)\<close> for a one-character \<open>old\<close>.\<close>

definition str_replace :: "char \<Rightarrow> string \<Rightarrow> string \<Rightarrow> string" where
  "str_replace old new s = concat (map (\<lambda>c. if c = old then new else [c]) s)"

definition digit_chars :: "char list" where
  "digit_chars = ''0123456789''"

text \<open>\<^verbatim>\<open>s.isdigit()\<close>: at least one character, all of them decimal digits.\<close>

definition isdigit :: "string \<Rightarrow> bool" where
  "isdigit s = (s \<noteq> [] \<and> list_all (\<lambda>c. c \<in> set digit_chars) s)"

text \<open>The value of a decimal digit: its position in \<open>digit_chars\<close>.\<close>

definition digit_value :: "char \<Rightarrow> int" where
  "digit_value c = int (length (takeWhile (\<lambda>d. d \<noteq> c) digit_chars))"

text \<open>\<^verbatim>\<open>int(s)\<close> on a string of decimal digits.\<close>

definition int_of_str :: "string \<Rightarrow> int" where
  "int_of_str s = foldl (\<lambda>n c. 10 * n + digit_value c) 0 s"

text \<open>\<^verbatim>\<open>os.path.join(a, b)\<close> on POSIX paths.\<close>

definition path_join :: "string \<Rightarrow> string \<Rightarrow> string" where
  "path_join a b =
     (if b \<noteq> [] \<and> hd b = CHR ''/'' then b
      else if a = [] \<or> last a = CHR ''/'' then a @ b
      else a @ ''/'' @ b)"

text \<open>
  A \<^verbatim>\<open>datetime\<close> value, and \<^verbatim>\<open>strftime('%Y-%m-%d %H:%M:%S')\<close> on it: the
  microseconds are not printed.
\<close>

record datetime =
  year :: nat
  month :: nat
  day :: nat
  hour :: nat
  minute :: nat
  second :: nat
  microsecond :: nat

fun decimal :: "nat \<Rightarrow> string" where
  "decimal n = (if n < 10 then [digit_chars ! n] else decimal (n div 10) @ [digit_chars ! (n mod 10)])"

definition zero_pad :: "nat \<Rightarrow> nat \<Rightarrow> string" where
  "zero_pad w n = replicate (w - length (decimal n)) (CHR ''0'') @ decimal n"

definition strftime :: "datetime \<Rightarrow> string" where
  "strftime dt =
     zero_pad 4 (year dt) @ ''-'' @ zero_pad 2 (month dt) @ ''-'' @ zero_pad 2 (day dt) @ '' '' @
     zero_pad 2 (hour dt) @ '':'' @ zero_pad 2 (minute dt) @ '':'' @ zero_pad 2 (second dt)"

section \<open>Data model\<close>

text \<open>A project record of the configuration (a dictionary in the source).\<close>

record project =
  project_name :: string
  local_path :: string
  remote_host :: string
  remote_path :: string
  git_branch :: string

text \<open>The dictionaries appended by \<^verbatim>\<open>_detect_conflicts\<close>.\<close>

record conflict =
  conflict_file :: string
  local_time :: string
  remote_time :: string

text \<open>The three strings a conflict is resolved with: \<^verbatim>\<open>'local'\<close>, \<^verbatim>\<open>'remote'\<close>, \<^verbatim>\<open>'skip'\<close>.\<close>

datatype choice = Local | Remote | Skip

datatype direction = ToRemote | FromRemote

text \<open>
  What the user does with the conflict shown: one of the three buttons, with the state of
  the check box "Apply to all remaining conflicts" at that moment, or "Cancel All".
\<close>

datatype click = Resolve choice bool | CancelAll

section \<open>The outside world\<close>

text \<open>What \<^verbatim>\<open>subprocess.run\<close> does: it completes with a return code, standard output
  and standard error, or raises.\<close>

datatype proc_result = Completed int string string | TimeoutExpired | OtherException string

text \<open>
  Everything the tool does to its surroundings is recorded, in order: status line updates,
  message boxes, shell commands (with their working directory), the temporary file list
  written for the transfer and its removal.
\<close>

datatype event =
    Status string string
  | ShowError string string
  | ShowInfo string string
  | Run string "string option"
  | TempFile string string
  | Unlink string

text \<open>
  The surroundings are a deterministic world of some type \<open>'w\<close>: every shell command, every
  dialog and every temporary file may change it. The functions of the environment are the
  library and user boundary of the tool:
  \<^item> \<open>subprocess_run cmd cwd\<close>: the shell command, run in \<open>cwd\<close>;
  \<^item> \<open>path_exists\<close>, \<open>getmtime\<close>: \<^verbatim>\<open>os.path.exists\<close> and \<^verbatim>\<open>os.path.getmtime\<close>;
  \<^item> \<open>fromtimestamp\<close>: \<^verbatim>\<open>datetime.fromtimestamp\<close> (it depends on the time zone);
  \<^item> \<open>set_iter\<close>: the order in which Python iterates over a set of strings;
  \<^item> \<open>commit_dialog\<close>: the \<^verbatim>\<open>result\<close> of a \<^verbatim>\<open>CommitDialog\<close> once it is closed;
  \<^item> \<open>conflict_user\<close>: what the user clicks when conflict number \<open>i\<close> is shown;
  \<^item> \<open>askyesno\<close>: \<^verbatim>\<open>messagebox.askyesno\<close>;
  \<^item> \<open>named_temporary_file content\<close>: a new temporary file holding \<open>content\<close>, by name;
  \<^item> \<open>os_unlink\<close>: \<^verbatim>\<open>os.unlink\<close>.
\<close>

record 'w env =
  subprocess_run :: "string \<Rightarrow> string option \<Rightarrow> 'w \<Rightarrow> proc_result \<times> 'w"
  path_exists :: "string \<Rightarrow> 'w \<Rightarrow> bool"
  getmtime :: "string \<Rightarrow> 'w \<Rightarrow> real"
  fromtimestamp :: "real \<Rightarrow> datetime"
  set_iter :: "string set \<Rightarrow> string list"
  commit_dialog :: "string \<Rightarrow> 'w \<Rightarrow> string option \<times> 'w"
  conflict_user :: "conflict list \<Rightarrow> 'w \<Rightarrow> (nat \<Rightarrow> click) \<times> 'w"
  askyesno :: "string \<Rightarrow> string \<Rightarrow> 'w \<Rightarrow> bool \<times> 'w"
  named_temporary_file :: "string \<Rightarrow> 'w \<Rightarrow> string \<times> 'w"
  os_unlink :: "string \<Rightarrow> 'w \<Rightarrow> 'w"

record 'w state =
  world :: 'w
  trace :: "event list"

definition emit :: "event \<Rightarrow> 'w state \<Rightarrow> 'w state" where
  "emit e s = s\<lparr>trace := trace s @ [e]\<rparr>"

text \<open>\<^verbatim>\<open>SyncApp._set_status\<close>.\<close>

definition set_status :: "string \<Rightarrow> string \<Rightarrow> 'w state \<Rightarrow> 'w state" where
  "set_status msg color s = emit (Status msg color) s"

section \<open>Running commands\<close>

text \<open>\<^verbatim>\<open>SyncApp._run_command\<close>: success flag and stripped combined output; a time-out and any
  other exception are a failure with a message.\<close>

definition run_command ::
  "'w env \<Rightarrow> string \<Rightarrow> string option \<Rightarrow> 'w state \<Rightarrow> (bool \<times> string) \<times> 'w state" where
  "run_command env cmd cwd s =
     (case subprocess_run env cmd cwd (world s) of
        (r, w') \<Rightarrow>
          (let s' = emit (Run cmd cwd) (s\<lparr>world := w'\<rparr>) in
           case r of
             Completed returncode out err \<Rightarrow> ((returncode = 0, strip (out @ err)), s')
           | TimeoutExpired \<Rightarrow> ((False, ''Command timed out''), s')
           | OtherException msg \<Rightarrow> ((False, msg), s')))"

section \<open>Untracked files and modification times\<close>

definition ls_files_cmd :: string where
  "ls_files_cmd = ''git ls-files --others --ignored --exclude-standard''"

definition remote_ls_files_cmd :: "project \<Rightarrow> string" where
  "remote_ls_files_cmd p =
     ''ssh '' @ remote_host p @ '' \"cd '' @ remote_path p @ '' && '' @ ls_files_cmd @ ''\"''"

text \<open>\<^verbatim>\<open>SyncApp._get_gitignored_files\<close>.\<close>

definition get_gitignored_files ::
  "'w env \<Rightarrow> project \<Rightarrow> bool \<Rightarrow> 'w state \<Rightarrow> string list \<times> 'w state" where
  "get_gitignored_files env p local s =
     (case (if local then run_command env ls_files_cmd (Some (local_path p)) s
            else run_command env (remote_ls_files_cmd p) None s) of
        ((success, output), s') \<Rightarrow>
          (if success \<and> output \<noteq> [] then (str_split (CHR 0x0A) (strip output), s')
           else ([], s')))"

definition remote_stat_cmd :: "project \<Rightarrow> string \<Rightarrow> string" where
  "remote_stat_cmd p filepath =
     ''ssh '' @ remote_host p @ '' \"stat -f %m '' @ remote_path p @ ''/'' @ filepath @
     ''\" 2>/dev/null || ssh '' @ remote_host p @ '' \"stat -c %Y '' @ remote_path p @ ''/'' @
     filepath @ ''\" 2>/dev/null''"

text \<open>\<^verbatim>\<open>SyncApp._get_file_mtime\<close>: the formatted time, or \<^verbatim>\<open>None\<close>.\<close>

definition get_file_mtime ::
  "'w env \<Rightarrow> project \<Rightarrow> string \<Rightarrow> bool \<Rightarrow> 'w state \<Rightarrow> string option \<times> 'w state" where
  "get_file_mtime env p filepath local s =
     (if local then
        (let full_path = path_join (local_path p) filepath in
         if path_exists env full_path (world s)
         then (Some (strftime (fromtimestamp env (getmtime env full_path (world s)))), s)
         else (None, s))
      else
        (case run_command env (remote_stat_cmd p filepath) None s of
           ((success, output), s') \<Rightarrow>
             (if success \<and> isdigit (strip output)
              then (Some (strftime (fromtimestamp env (of_int (int_of_str (strip output))))), s')
              else (None, s'))))"

section \<open>Conflict detection\<close>

text \<open>Python's truth value of \<^verbatim>\<open>None\<close> or a string.\<close>

fun truthy :: "string option \<Rightarrow> bool" where
  "truthy None = False"
| "truthy (Some t) = (t \<noteq> [])"

text \<open>The loop of \<^verbatim>\<open>SyncApp._detect_conflicts\<close> over the common files.\<close>

fun detect_loop ::
  "'w env \<Rightarrow> project \<Rightarrow> string list \<Rightarrow> conflict list \<Rightarrow> 'w state \<Rightarrow> conflict list \<times> 'w state" where
  "detect_loop env p [] conflicts s = (conflicts, s)"
| "detect_loop env p (f # fs) conflicts s =
     (case get_file_mtime env p f True s of
        (lt, s1) \<Rightarrow>
          (case get_file_mtime env p f False s1 of
             (rt, s2) \<Rightarrow>
               detect_loop env p fs
                 (if truthy lt \<and> truthy rt \<and> lt \<noteq> rt
                  then conflicts @ [\<lparr>conflict_file = f, local_time = the lt, remote_time = the rt\<rparr>]
                  else conflicts)
                 s2))"

text \<open>\<^verbatim>\<open>SyncApp._detect_conflicts\<close>; the direction is not used by the source either.\<close>

definition detect_conflicts ::
  "'w env \<Rightarrow> project \<Rightarrow> direction \<Rightarrow> 'w state \<Rightarrow> conflict list \<times> 'w state" where
  "detect_conflicts env p dir s =
     (case get_gitignored_files env p True s of
        (local_files, s1) \<Rightarrow>
          (case get_gitignored_files env p False s1 of
             (remote_files, s2) \<Rightarrow>
               detect_loop env p (set_iter env (set local_files \<inter> set remote_files)) [] s2))"

section \<open>The conflict dialog\<close>

datatype py_error = IndexError | AttributeError | JSONDecodeError | IOError | UnicodeDecodeError

text \<open>
  The attributes of a \<^verbatim>\<open>ConflictDialog\<close>. The dictionary \<^verbatim>\<open>results\<close> is an association
  list in insertion order: assigning to a key that is present replaces its value in place,
  assigning to a new key appends it, which is what \<open>AList.update\<close> does. \<open>destroyed\<close>
  records that \<^verbatim>\<open>destroy()\<close> has been called, which is what \<^verbatim>\<open>wait_window\<close> waits for.
\<close>

record dialog =
  conflicts :: "conflict list"
  results :: "(string \<times> choice) list"
  cancelled :: bool
  current_index :: nat
  destroyed :: bool

text \<open>\<^verbatim>\<open>ConflictDialog._show_conflict\<close>: past the last conflict the window closes; the
  labels it fills in otherwise are not modelled.\<close>

definition show_conflict :: "dialog \<Rightarrow> nat \<Rightarrow> dialog" where
  "show_conflict d index =
     (if index \<ge> length (conflicts d) then d\<lparr>destroyed := True\<rparr> else d)"

text \<open>\<^verbatim>\<open>ConflictDialog._resolve\<close>, with the value of \<^verbatim>\<open>apply_all_var\<close> as an argument.\<close>

definition resolve :: "dialog \<Rightarrow> choice \<Rightarrow> bool \<Rightarrow> py_error + dialog" where
  "resolve d choice apply_all =
     (if current_index d \<ge> length (conflicts d) then Inl IndexError
      else
        (let conflict = conflicts d ! current_index d;
             d1 = d\<lparr>results := AList.update (conflict_file conflict) choice (results d)\<rparr>
         in if apply_all then
              Inr (d1\<lparr>results :=
                         fold (\<lambda>i r. AList.update (conflict_file (conflicts d ! i)) choice r)
                           [current_index d + 1 ..< length (conflicts d)] (results d1),
                       destroyed := True\<rparr>)
            else
              (let d2 = d1\<lparr>current_index := current_index d1 + 1\<rparr>
               in Inr (show_conflict d2 (current_index d2)))))"

text \<open>\<^verbatim>\<open>ConflictDialog._cancel\<close>.\<close>

definition cancel :: "dialog \<Rightarrow> dialog" where
  "cancel d = d\<lparr>cancelled := True, destroyed := True\<rparr>"

text \<open>
  \<^verbatim>\<open>wait_window\<close>: the event loop hands each click to its callback until the window is
  destroyed. An exception in a callback is reported by the toolkit and changes nothing;
  with no further conflict to show there is nothing more to click, and the dialog is
  given back as it is, not destroyed.
\<close>

function wait_window :: "(nat \<Rightarrow> click) \<Rightarrow> dialog \<Rightarrow> dialog" where
  "wait_window user d =
     (if destroyed d then d
      else (case user (current_index d) of
              CancelAll \<Rightarrow> wait_window user (cancel d)
            | Resolve choice apply_all \<Rightarrow>
                (case resolve d choice apply_all of
                   Inl e \<Rightarrow> d
                 | Inr d' \<Rightarrow> wait_window user d')))"
  by pat_completeness auto
termination
proof (relation "measure (\<lambda>(user, d). if destroyed d then 0 else Suc (length (conflicts d) - current_index d))")
  show "wf (measure (\<lambda>(user, d). if destroyed d then 0 else Suc (length (conflicts d) - current_index d)))"
    by simp
next
  fix user :: "nat \<Rightarrow> click" and d :: dialog
  assume "\<not> destroyed d"
  then show "((user, cancel d), (user, d)) \<in> measure (\<lambda>(user, d). if destroyed d then 0 else Suc (length (conflicts d) - current_index d))"
    by (simp add: cancel_def)
next
  fix user :: "nat \<Rightarrow> click" and d d' :: dialog and choice apply_all
  assume "\<not> destroyed d" and "resolve d choice apply_all = Inr d'"
  then show "((user, d'), (user, d)) \<in> measure (\<lambda>(user, d). if destroyed d then 0 else Suc (length (conflicts d) - current_index d))"
    by (auto simp: resolve_def show_conflict_def Let_def split: if_splits)
qed

text \<open>\<^verbatim>\<open>ConflictDialog.__init__\<close>, for a user who clicks \<open>user i\<close> on conflict \<open>i\<close>.\<close>

definition ConflictDialog :: "conflict list \<Rightarrow> (nat \<Rightarrow> click) \<Rightarrow> dialog" where
  "ConflictDialog cs user =
     wait_window user
       (show_conflict
          \<lparr>conflicts = cs, results = [], cancelled = False, current_index = 0, destroyed = False\<rparr> 0)"

text \<open>The dialog as the application opens it: the user is the one of the environment.\<close>

definition open_conflict_dialog :: "'w env \<Rightarrow> conflict list \<Rightarrow> 'w state \<Rightarrow> dialog \<times> 'w state" where
  "open_conflict_dialog env cs s =
     (case conflict_user env cs (world s) of
        (user, w') \<Rightarrow> (ConflictDialog cs user, s\<lparr>world := w'\<rparr>))"

section \<open>Synchronising the untracked files\<close>

text \<open>\<^verbatim>\<open>messagebox.showerror\<close> and \<^verbatim>\<open>messagebox.showinfo\<close>.\<close>

definition showerror :: "string \<Rightarrow> string \<Rightarrow> 'w state \<Rightarrow> 'w state" where
  "showerror title msg s = emit (ShowError title msg) s"

definition showinfo :: "string \<Rightarrow> string \<Rightarrow> 'w state \<Rightarrow> 'w state" where
  "showinfo title msg s = emit (ShowInfo title msg) s"

definition newline :: string where
  "newline = [CHR 0x0A]"

definition rsync_to_remote_cmd :: "project \<Rightarrow> string \<Rightarrow> string" where
  "rsync_to_remote_cmd p temp_file =
     ''rsync -avz --files-from=\"'' @ temp_file @ ''\" \"'' @ local_path p @ ''/\" \"'' @
     remote_host p @ '':'' @ remote_path p @ ''/\"''"

definition rsync_from_remote_cmd :: "project \<Rightarrow> string \<Rightarrow> string" where
  "rsync_from_remote_cmd p temp_file =
     ''rsync -avz --files-from=\"'' @ temp_file @ ''\" \"'' @ remote_host p @ '':'' @
     remote_path p @ ''/\" \"'' @ local_path p @ ''/\"''"

text \<open>
  The second half of \<^verbatim>\<open>_sync_to_remote\<close> and \<^verbatim>\<open>_sync_from_remote\<close>, from the status
  "Syncing untracked files ..." on: the two methods differ in the side that is listed, in
  the transfer command and in the wording. The temporary file is removed in a
  \<^verbatim>\<open>finally\<close> block, after the status of the transfer is set.
\<close>

definition transfer ::
  "'w env \<Rightarrow> project \<Rightarrow> direction \<Rightarrow> string list \<Rightarrow> 'w state \<Rightarrow> bool \<times> 'w state" where
  "transfer env p dir exclude_files s =
     (let s1 = set_status
                 (if dir = ToRemote then ''Syncing untracked files to remote...''
                  else ''Syncing untracked files from remote...'') ''blue'' s
      in case get_gitignored_files env p (dir = ToRemote) s1 of
        (listed, s2) \<Rightarrow>
          (let files = filter (\<lambda>f. f \<notin> set exclude_files) listed
           in if files = [] then (True, set_status ''No untracked files to sync'' ''gray'' s2)
              else
                (case named_temporary_file env (str_join newline files) (world s2) of
                   (temp_file, w3) \<Rightarrow>
                     (let s3 = emit (TempFile temp_file (str_join newline files)) (s2\<lparr>world := w3\<rparr>);
                          cmd = (if dir = ToRemote then rsync_to_remote_cmd p temp_file
                                 else rsync_from_remote_cmd p temp_file)
                      in case run_command env cmd None s3 of
                        ((success, output), s4) \<Rightarrow>
                          (let (ok, s5) =
                                 (if success then
                                    (True, set_status
                                       (''Synced '' @ decimal (length files) @
                                        (if dir = ToRemote then '' files to remote''
                                         else '' files from remote'')) ''green'' s4)
                                  else
                                    (False, showerror ''Error'' (''Sync failed:'' @ newline @ output)
                                              (set_status ''Sync failed'' ''red'' s4)))
                           in (ok, emit (Unlink temp_file)
                                     (s5\<lparr>world := os_unlink env temp_file (world s5)\<rparr>)))))))"

text \<open>The files left out of the transfer: the comprehension over \<^verbatim>\<open>dialog.results.items()\<close>.\<close>

definition exclude_files_of :: "direction \<Rightarrow> (string \<times> choice) list \<Rightarrow> string list" where
  "exclude_files_of dir res =
     [f. (f, choice) \<leftarrow> res, choice \<noteq> (if dir = ToRemote then Local else Remote)]"

text \<open>
  The first half of the two methods and the hand-over to the second: \<^verbatim>\<open>_sync_to_remote\<close>
  is \<open>sync ToRemote\<close> and \<^verbatim>\<open>_sync_from_remote\<close> is \<open>sync FromRemote\<close>.
\<close>

definition sync ::
  "'w env \<Rightarrow> direction \<Rightarrow> project option \<Rightarrow> bool \<Rightarrow> 'w state \<Rightarrow> bool \<times> 'w state" where
  "sync env dir current_project resolve_conflicts s =
     (case current_project of
        None \<Rightarrow> (False, s)
      | Some p \<Rightarrow>
          (let s0 = set_status ''Checking for conflicts...'' ''blue'' s
           in if resolve_conflicts then
                (case detect_conflicts env p dir s0 of
                   (cs, s1) \<Rightarrow>
                     (if cs \<noteq> [] then
                        (case open_conflict_dialog env cs s1 of
                           (dlg, s2) \<Rightarrow>
                             (if cancelled dlg then (False, set_status ''Sync cancelled'' ''gray'' s2)
                              else transfer env p dir (exclude_files_of dir (results dlg)) s2))
                      else transfer env p dir [] s1))
              else transfer env p dir [] s0))"

definition sync_to_remote :: "'w env \<Rightarrow> project option \<Rightarrow> bool \<Rightarrow> 'w state \<Rightarrow> bool \<times> 'w state" where
  "sync_to_remote env current_project resolve_conflicts s =
     sync env ToRemote current_project resolve_conflicts s"

definition sync_from_remote :: "'w env \<Rightarrow> project option \<Rightarrow> bool \<Rightarrow> 'w state \<Rightarrow> bool \<times> 'w state" where
  "sync_from_remote env current_project resolve_conflicts s =
     sync env FromRemote current_project resolve_conflicts s"

section \<open>Git operations\<close>

text \<open>\<^verbatim>\<open>SyncApp._get_git_status\<close>.\<close>

definition get_git_status :: "'w env \<Rightarrow> project \<Rightarrow> 'w state \<Rightarrow> (bool \<times> string) \<times> 'w state" where
  "get_git_status env p s =
     (case run_command env ''git status --porcelain'' (Some (local_path p)) s of
        ((success, output), s') \<Rightarrow>
          (if \<not> success then ((False, ''Error checking git status''), s')
           else ((strip output \<noteq> [], strip output), s')))"

definition commit_cmd :: "string \<Rightarrow> string" where
  "commit_cmd commit_msg = ''git add -A && git commit -m \"'' @ commit_msg @ ''\"''"

definition push_cmd :: "project \<Rightarrow> string" where
  "push_cmd p = ''git push origin '' @ git_branch p"

definition pull_cmd :: "project \<Rightarrow> string" where
  "pull_cmd p = ''git pull origin '' @ git_branch p"

text \<open>The last part of \<^verbatim>\<open>_git_push\<close>, from the comment \<^verbatim>\<open># Push\<close> on.\<close>

definition push_branch :: "'w env \<Rightarrow> project \<Rightarrow> 'w state \<Rightarrow> bool \<times> 'w state" where
  "push_branch env p s =
     (case run_command env (push_cmd p) (Some (local_path p))
             (set_status ''Pushing to remote...'' ''blue'' s) of
        ((success, output), s') \<Rightarrow>
          (if success then (True, set_status ''Push successful'' ''green'' s')
           else (False, showerror ''Error'' (''Push failed:'' @ newline @ output)
                          (set_status ''Push failed'' ''red'' s'))))"

text \<open>\<^verbatim>\<open>SyncApp._git_push\<close>; the source does not use \<^verbatim>\<open>skip_commit_check\<close> either.\<close>

definition git_push :: "'w env \<Rightarrow> project option \<Rightarrow> bool \<Rightarrow> 'w state \<Rightarrow> bool \<times> 'w state" where
  "git_push env current_project skip_commit_check s =
     (case current_project of
        None \<Rightarrow> (False, s)
      | Some p \<Rightarrow>
          (case get_git_status env p (set_status ''Checking for uncommitted changes...'' ''blue'' s) of
             ((is_dirty, summary), s1) \<Rightarrow>
               (if is_dirty then
                  (case commit_dialog env summary (world s1) of
                     (result, w2) \<Rightarrow>
                       (let s2 = s1\<lparr>world := w2\<rparr>
                        in if \<not> truthy result then (False, set_status ''Push cancelled'' ''gray'' s2)
                           else
                             (let commit_msg = str_replace (CHR 0x22) [CHR 0x5C, CHR 0x22] (the result)
                              in case run_command env (commit_cmd commit_msg) (Some (local_path p))
                                        (set_status ''Committing changes...'' ''blue'' s2) of
                                ((success, output), s3) \<Rightarrow>
                                  (if \<not> success then
                                     (False, showerror ''Error'' (''Commit failed:'' @ newline @ output)
                                               (set_status ''Commit failed'' ''red'' s3))
                                   else push_branch env p s3))))
                else push_branch env p s1)))"

definition pull_warning :: string where
  "pull_warning = ''You have uncommitted changes. Pull may fail or create merge conflicts.'' @
     newline @ newline @ ''Continue anyway?''"

text \<open>The last part of \<^verbatim>\<open>_git_pull\<close>, from the status "Pulling from remote..." on.\<close>

definition pull_branch :: "'w env \<Rightarrow> project \<Rightarrow> 'w state \<Rightarrow> bool \<times> 'w state" where
  "pull_branch env p s =
     (case run_command env (pull_cmd p) (Some (local_path p))
             (set_status ''Pulling from remote...'' ''blue'' s) of
        ((success, output), s') \<Rightarrow>
          (if success then (True, set_status ''Pull successful'' ''green'' s')
           else (False, showerror ''Error'' (''Pull failed:'' @ newline @ output)
                          (set_status ''Pull failed'' ''red'' s'))))"

text \<open>\<^verbatim>\<open>SyncApp._git_pull\<close>.\<close>

definition git_pull :: "'w env \<Rightarrow> project option \<Rightarrow> 'w state \<Rightarrow> bool \<times> 'w state" where
  "git_pull env current_project s =
     (case current_project of
        None \<Rightarrow> (False, s)
      | Some p \<Rightarrow>
          (case get_git_status env p s of
             ((is_dirty, summary), s1) \<Rightarrow>
               (if is_dirty then
                  (case askyesno env ''Warning'' pull_warning (world s1) of
                     (yes, w2) \<Rightarrow>
                       (if \<not> yes then (False, set_status ''Pull cancelled'' ''gray'' (s1\<lparr>world := w2\<rparr>))
                        else pull_branch env p (s1\<lparr>world := w2\<rparr>)))
                else pull_branch env p s1)))"

section \<open>Full sync\<close>

text \<open>
  The loop of \<^verbatim>\<open>SyncApp._full_sync\<close> over its list of named steps. The flag says whether
  the loop ran to its end, or left the method at a step that did not succeed.
\<close>

fun run_steps :: "(string \<times> ('w state \<Rightarrow> bool \<times> 'w state)) list \<Rightarrow> 'w state \<Rightarrow> bool \<times> 'w state" where
  "run_steps [] s = (True, s)"
| "run_steps ((step_name, step_func) # rest) s =
     (case step_func (set_status (step_name @ ''...'') ''blue'' s) of
        (ok, s') \<Rightarrow>
          (if \<not> ok then (False, set_status (''Full sync stopped at: '' @ step_name) ''orange'' s')
           else run_steps rest s'))"

definition steps :: "'w env \<Rightarrow> project option \<Rightarrow> (string \<times> ('w state \<Rightarrow> bool \<times> 'w state)) list" where
  "steps env current_project =
     [(''Syncing untracked to remote'', sync_to_remote env current_project True),
      (''Pushing to git'', git_push env current_project False),
      (''Pulling from git'', git_pull env current_project),
      (''Syncing untracked from remote'', sync_from_remote env current_project True)]"

text \<open>\<^verbatim>\<open>SyncApp._full_sync\<close>; it returns nothing, what it reports is in the trace.\<close>

definition full_sync :: "'w env \<Rightarrow> project option \<Rightarrow> 'w state \<Rightarrow> 'w state" where
  "full_sync env current_project s =
     (case current_project of
        None \<Rightarrow> s
      | Some p \<Rightarrow>
          (case run_steps (steps env current_project) s of
             (completed, s') \<Rightarrow>
               (if completed then
                  showinfo ''Success'' ''Full sync completed successfully!''
                    (set_status ''Full sync complete!'' ''green'' s')
                else s')))"

section \<open>The project store\<close>

text \<open>What \<^verbatim>\<open>json.load\<close> gives back: Python values.\<close>

datatype pyvalue =
    PNone
  | PBool bool
  | PInt int
  | PFloat real
  | PStr string
  | PList "pyvalue list"
  | PDict "(string \<times> pyvalue) list"

text \<open>
  The store file as \<^verbatim>\<open>Config.load\<close> meets it: whether \<^verbatim>\<open>CONFIG_FILE\<close> exists, and what
  opening and reading it gives, its text or an exception.
\<close>

record store =
  config_exists :: bool
  config_read :: "py_error + string"

text \<open>\<^verbatim>\<open>data.get(key, default)\<close>: only a dictionary has the method.\<close>

definition py_get :: "pyvalue \<Rightarrow> string \<Rightarrow> pyvalue \<Rightarrow> py_error + pyvalue" where
  "py_get data key dflt =
     (case data of
        PDict kvs \<Rightarrow> Inr (case map_of kvs key of None \<Rightarrow> dflt | Some v \<Rightarrow> v)
      | _ \<Rightarrow> Inl AttributeError)"

text \<open>
  \<^verbatim>\<open>Config.load\<close>: the value of \<^verbatim>\<open>self.projects\<close> afterwards, or the exception
  that leaves the method. The JSON parser \<open>json_loads\<close> is a parameter.
\<close>

definition load :: "(string \<Rightarrow> py_error + pyvalue) \<Rightarrow> store \<Rightarrow> py_error + pyvalue" where
  "load json_loads st =
     (if config_exists st then
        (case (case config_read st of
                 Inl e \<Rightarrow> Inl e
               | Inr text \<Rightarrow>
                   (case json_loads text of
                      Inl e \<Rightarrow> Inl e
                    | Inr data \<Rightarrow> py_get data ''projects'' (PList []))) of
           Inl e \<Rightarrow> (if e = JSONDecodeError \<or> e = IOError then Inr (PList []) else Inl e)
         | Inr projects \<Rightarrow> Inr projects)
      else Inr (PList []))"

section \<open>Vocabulary of the properties\<close>

text \<open>A command is read-only when running it leaves the world as it is.\<close>

definition read_only :: "'w env \<Rightarrow> string \<Rightarrow> string option \<Rightarrow> bool" where
  "read_only env cmd cwd = (\<forall>w. snd (subprocess_run env cmd cwd w) = w)"

definition detection_read_only :: "'w env \<Rightarrow> project \<Rightarrow> bool" where
  "detection_read_only env p =
     (read_only env ls_files_cmd (Some (local_path p)) \<and>
      read_only env (remote_ls_files_cmd p) None \<and>
      (\<forall>f. read_only env (remote_stat_cmd p f) None))"

text \<open>What the two sides list and what their modification times are, seen from a state.\<close>

definition local_files :: "'w env \<Rightarrow> project \<Rightarrow> 'w state \<Rightarrow> string list" where
  "local_files env p s = fst (get_gitignored_files env p True s)"

definition remote_files :: "'w env \<Rightarrow> project \<Rightarrow> 'w state \<Rightarrow> string list" where
  "remote_files env p s = fst (get_gitignored_files env p False s)"

definition local_mtime :: "'w env \<Rightarrow> project \<Rightarrow> 'w state \<Rightarrow> string \<Rightarrow> string option" where
  "local_mtime env p s f = fst (get_file_mtime env p f True s)"

definition remote_mtime :: "'w env \<Rightarrow> project \<Rightarrow> 'w state \<Rightarrow> string \<Rightarrow> string option" where
  "remote_mtime env p s f = fst (get_file_mtime env p f False s)"

definition common_files :: "'w env \<Rightarrow> project \<Rightarrow> 'w state \<Rightarrow> string set" where
  "common_files env p s = set (local_files env p s) \<inter> set (remote_files env p s)"


definition differs :: "'w env \<Rightarrow> project \<Rightarrow> 'w state \<Rightarrow> string \<Rightarrow> bool" where
  "differs env p s f =
     (local_mtime env p s f \<noteq> None \<and> remote_mtime env p s f \<noteq> None \<and>
      local_mtime env p s f \<noteq> remote_mtime env p s f)"

definition conflict_of :: "'w env \<Rightarrow> project \<Rightarrow> 'w state \<Rightarrow> string \<Rightarrow> conflict" where
  "conflict_of env p s f =
     \<lparr>conflict_file = f, local_time = the (local_mtime env p s f),
      remote_time = the (remote_mtime env p s f)\<rparr>"

definition new_events :: "'w state \<Rightarrow> 'w state \<Rightarrow> event list" where
  "new_events s s' = drop (length (trace s)) (trace s')"

fun is_command :: "event \<Rightarrow> bool" where
  "is_command (Run cmd cwd) = True"
| "is_command e = False"

text \<open>The events of a transfer: the file list written for it, and the \<^verbatim>\<open>rsync\<close> command.\<close>

fun is_transfer :: "event \<Rightarrow> bool" where
  "is_transfer (TempFile temp_file content) = True"
| "is_transfer (Run cmd cwd) = (take 5 cmd = ''rsync'')"
| "is_transfer e = False"

definition is_query :: "event \<Rightarrow> bool" where
  "is_query e = (is_command e \<and> \<not> is_transfer e)"

text \<open>What the tool tells the user: a status line or an error box; and the success box.\<close>

fun is_report :: "event \<Rightarrow> bool" where
  "is_report (Status msg color) = True"
| "is_report (ShowError title msg) = True"
| "is_report e = False"

fun is_info :: "event \<Rightarrow> bool" where
  "is_info (ShowInfo title msg) = True"
| "is_info e = False"


text \<open>The entries of \<^verbatim>\<open>results\<close> once the first \<open>i\<close> conflicts are decided as \<open>chosen\<close> says.\<close>

definition decided :: "conflict list \<Rightarrow> (nat \<Rightarrow> choice) \<Rightarrow> nat \<Rightarrow> (string \<times> choice) list" where
  "decided cs chosen i = map (\<lambda>j. (conflict_file (cs ! j), chosen j)) [0..<i]"

text \<open>Three conflicts, and a user who keeps the local copy of the first and then skips all the rest.\<close>

definition three_conflicts :: "conflict list" where
  "three_conflicts =
     [\<lparr>conflict_file = ''a.txt'', local_time = ''1970-01-01 00:00:00'', remote_time = ''1970-01-01 00:01:00''\<rparr>,
      \<lparr>conflict_file = ''b.txt'', local_time = ''1970-01-01 00:00:00'', remote_time = ''1970-01-01 00:01:00''\<rparr>,
      \<lparr>conflict_file = ''c.txt'', local_time = ''1970-01-01 00:00:00'', remote_time = ''1970-01-01 00:01:00''\<rparr>]"

definition local_then_skip_all :: "nat \<Rightarrow> click" where
  "local_then_skip_all i = (if i = 0 then Resolve Local False else Resolve Skip True)"



text \<open>The listing of the authoritative side, the events of a sync and its commands.\<close>

definition authoritative_files :: "'w env \<Rightarrow> project \<Rightarrow> direction \<Rightarrow> 'w state \<Rightarrow> string list" where
  "authoritative_files env p dir s = fst (get_gitignored_files env p (dir = ToRemote) s)"

definition listing_event :: "project \<Rightarrow> direction \<Rightarrow> event" where
  "listing_event p dir =
     (if dir = ToRemote then Run ls_files_cmd (Some (local_path p))
      else Run (remote_ls_files_cmd p) None)"

definition rsync_cmd :: "direction \<Rightarrow> project \<Rightarrow> string \<Rightarrow> string" where
  "rsync_cmd dir p temp_file =
     (if dir = ToRemote then rsync_to_remote_cmd p temp_file else rsync_from_remote_cmd p temp_file)"

definition syncing_status :: "direction \<Rightarrow> event" where
  "syncing_status dir =
     Status (if dir = ToRemote then ''Syncing untracked files to remote...''
             else ''Syncing untracked files from remote...'') ''blue''"

definition nothing_to_do :: event where
  "nothing_to_do = Status ''No untracked files to sync'' ''gray''"

text \<open>The name of the temporary file that a transfer of \<open>files\<close> gets after the listing.\<close>

definition temp_file_of :: "'w env \<Rightarrow> project \<Rightarrow> direction \<Rightarrow> string list \<Rightarrow> 'w state \<Rightarrow> string" where
  "temp_file_of env p dir files s =
     fst (named_temporary_file env (str_join newline files)
            (world (snd (get_gitignored_files env p (dir = ToRemote) s))))"

text \<open>
  The first half of a sync, up to the hand-over to the transfer: the resolution that the
  dialog gives (empty when no conflict is detected or none is looked for), or nothing when
  the user cancels; with the state in which the second half starts.
\<close>

definition resolution_phase ::
  "'w env \<Rightarrow> project \<Rightarrow> direction \<Rightarrow> bool \<Rightarrow> 'w state \<Rightarrow> (string \<times> choice) list option \<times> 'w state" where
  "resolution_phase env p dir resolve_conflicts s =
     (let s0 = set_status ''Checking for conflicts...'' ''blue'' s
      in if resolve_conflicts then
           (case detect_conflicts env p dir s0 of
              (cs, s1) \<Rightarrow>
                (if cs \<noteq> [] then
                   (case open_conflict_dialog env cs s1 of
                      (dlg, s2) \<Rightarrow> (if cancelled dlg then None else Some (results dlg), s2))
                 else (Some [], s1)))
         else (Some [], s0))"

definition transfer_events :: "'w env \<Rightarrow> project \<Rightarrow> direction \<Rightarrow> string list \<Rightarrow> 'w state \<Rightarrow> event list" where
  "transfer_events env p dir files s =
     (if files = [] then []
      else [TempFile (temp_file_of env p dir files s) (str_join newline files),
            Run (rsync_cmd dir p (temp_file_of env p dir files s)) None])"

text \<open>The listing command of a side does not succeed with output in world \<open>w\<close>: it exits
  with a code other than zero, prints nothing but white space, times out or cannot be run.\<close>

definition listing_fails_at :: "'w env \<Rightarrow> project \<Rightarrow> bool \<Rightarrow> 'w \<Rightarrow> bool" where
  "listing_fails_at env p local w =
     (case fst (subprocess_run env (if local then ls_files_cmd else remote_ls_files_cmd p)
                  (if local then Some (local_path p) else None) w) of
        Completed returncode out err \<Rightarrow> returncode \<noteq> 0 \<or> strip (out @ err) = []
      | TimeoutExpired \<Rightarrow> True
      | OtherException msg \<Rightarrow> True)"

definition listing_fails :: "'w env \<Rightarrow> project \<Rightarrow> direction \<Rightarrow> bool" where
  "listing_fails env p dir = (\<forall>w. listing_fails_at env p (dir = ToRemote) w)"

fun is_error :: "event \<Rightarrow> bool" where
  "is_error (ShowError title msg) = True"
| "is_error e = False"

text \<open>The events of a push: that the push command ran, and the commit command for a message.\<close>

definition push_event :: "project \<Rightarrow> event" where
  "push_event p = Run (push_cmd p) (Some (local_path p))"

definition commit_event :: "project \<Rightarrow> string \<Rightarrow> event" where
  "commit_event p message =
     Run (commit_cmd (str_replace (CHR 0x22) [CHR 0x5C, CHR 0x22] message)) (Some (local_path p))"

definition status_event :: "project \<Rightarrow> event" where
  "status_event p = Run ''git status --porcelain'' (Some (local_path p))"


text \<open>The marks a full sync leaves around a step, and its success box.\<close>

definition started :: "string \<Rightarrow> 'w state \<Rightarrow> 'w state" where
  "started step_name s = set_status (step_name @ ''...'') ''blue'' s"

definition stopped :: "string \<Rightarrow> 'w state \<Rightarrow> 'w state" where
  "stopped step_name s = set_status (''Full sync stopped at: '' @ step_name) ''orange'' s"

definition success_box :: event where
  "success_box = ShowInfo ''Success'' ''Full sync completed successfully!''"

definition completed :: "'w state \<Rightarrow> 'w state" where
  "completed s = showinfo ''Success'' ''Full sync completed successfully!''
                   (set_status ''Full sync complete!'' ''green'' s)"

text \<open>The second state continues the first with events that are not the success box.\<close>

definition quietly :: "'w state \<Rightarrow> 'w state \<Rightarrow> bool" where
  "quietly s s' = (\<exists>evs. trace s' = trace s @ evs \<and> list_all (\<lambda>e. \<not> is_info e) evs)"

section \<open>A small example\<close>

definition demo_project :: project where
  "demo_project = \<lparr>project_name = ''demo'', local_path = ''/w'', remote_host = ''h'',
                    remote_path = ''/r'', git_branch = ''main''\<rparr>"

definition demo_datetime :: "real \<Rightarrow> datetime" where
  "demo_datetime t = \<lparr>year = 1970, month = 1, day = 1, hour = 0,
                       minute = (if t = 60 then 1 else 0), second = 0, microsecond = 0\<rparr>"


definition demo_state :: "unit state" where
  "demo_state = \<lparr>world = (), trace = []\<rparr>"


text \<open>An environment with no state: every command is answered by \<open>respond\<close>, the conflict
  dialog is clicked by \<open>user\<close>, the commit dialog gives \<open>message\<close>.\<close>

definition scripted_env :: "(string \<Rightarrow> proc_result) \<Rightarrow> (nat \<Rightarrow> click) \<Rightarrow> string option \<Rightarrow> unit env" where
  "scripted_env respond user message =
     \<lparr>subprocess_run = (\<lambda>cmd cwd w. (respond cmd, w)),
      path_exists = (\<lambda>path w. True),
      getmtime = (\<lambda>path w. 0),
      fromtimestamp = demo_datetime,
      set_iter = (\<lambda>S. filter (\<lambda>f. f \<in> S) [''A'', ''B'', ''C'']),
      commit_dialog = (\<lambda>summary w. (message, w)),
      conflict_user = (\<lambda>cs w. (user, w)),
      askyesno = (\<lambda>title msg w. (True, w)),
      named_temporary_file = (\<lambda>content w. (''/tmp/list.txt'', w)),
      os_unlink = (\<lambda>path w. w)\<rparr>"

text \<open>The local side lists A, B and C, the remote side A and B; every remote time is 60.\<close>

definition abc_respond :: "string \<Rightarrow> proc_result" where
  "abc_respond cmd =
     (if cmd = ls_files_cmd then Completed 0 (''A'' @ newline @ ''B'' @ newline @ ''C'') []
      else if cmd = remote_ls_files_cmd demo_project then Completed 0 (''A'' @ newline @ ''B'') []
      else if take 5 cmd = ''rsync'' then Completed 0 [] []
      else Completed 0 ''60'' [])"


definition skip_all :: "nat \<Rightarrow> click" where
  "skip_all i = Resolve Skip True"

definition abc_env :: "(nat \<Rightarrow> click) \<Rightarrow> unit env" where
  "abc_env user = scripted_env abc_respond user None"

definition ab_conflicts :: "conflict list" where
  "ab_conflicts =
     [\<lparr>conflict_file = ''A'', local_time = ''1970-01-01 00:00:00'', remote_time = ''1970-01-01 00:01:00''\<rparr>,
      \<lparr>conflict_file = ''B'', local_time = ''1970-01-01 00:00:00'', remote_time = ''1970-01-01 00:01:00''\<rparr>]"

text \<open>Outside a repository both listings fail.\<close>

definition no_repository :: "string \<Rightarrow> proc_result" where
  "no_repository cmd = Completed 128 [] ''fatal: not a git repository''"




text \<open>Nothing is untracked and the tree is clean; the push command exits with \<open>push_code\<close>.\<close>

definition pipeline_respond :: "int \<Rightarrow> string \<Rightarrow> proc_result" where
  "pipeline_respond push_code cmd =
     (if cmd = push_cmd demo_project then Completed push_code [] [] else Completed 0 [] [])"

definition pipeline_env :: "int \<Rightarrow> unit env" where
  "pipeline_env push_code = scripted_env (pipeline_respond push_code) skip_all None"

section \<open>Conflict detection: the properties\<close>

lemma decimal_nonempty: "decimal n \<noteq> []"
  by (induction n rule: decimal.induct) (subst decimal.simps, simp)

lemma strftime_nonempty: "strftime dt \<noteq> []"
  by (simp add: strftime_def zero_pad_def decimal_nonempty)

lemma run_command_world:
  "world (snd (run_command env cmd cwd s)) = snd (subprocess_run env cmd cwd (world s))"
  by (simp add: run_command_def emit_def Let_def split: prod.splits proc_result.splits)

lemma run_command_trace:
  "trace (snd (run_command env cmd cwd s)) = trace s @ [Run cmd cwd]"
  by (simp add: run_command_def emit_def Let_def split: prod.splits proc_result.splits)

lemma run_command_fst_cong:
  "world s = world s' \<Longrightarrow> fst (run_command env cmd cwd s) = fst (run_command env cmd cwd s')"
  by (simp add: run_command_def emit_def Let_def split: prod.splits proc_result.splits)

lemma run_command_read_only:
  "read_only env cmd cwd \<Longrightarrow> world (snd (run_command env cmd cwd s)) = world s"
  by (simp add: run_command_world read_only_def)

lemma get_file_mtime_truthy: "truthy (fst (get_file_mtime env p f b s)) = (fst (get_file_mtime env p f b s) \<noteq> None)"
  by (auto simp: get_file_mtime_def Let_def strftime_nonempty split: prod.splits)

lemma get_file_mtime_cong:
  "world s = world s' \<Longrightarrow> fst (get_file_mtime env p f b s) = fst (get_file_mtime env p f b s')"
  using run_command_fst_cong[of s s' env "remote_stat_cmd p f" None]
  by (auto simp: get_file_mtime_def Let_def split: prod.splits)

lemma get_file_mtime_world:
  "read_only env (remote_stat_cmd p f) None \<Longrightarrow> world (snd (get_file_mtime env p f b s)) = world s"
  using run_command_read_only[of env "remote_stat_cmd p f" None s]
  by (auto simp: get_file_mtime_def Let_def split: prod.splits)

lemma get_gitignored_files_cong:
  "world s = world s' \<Longrightarrow> fst (get_gitignored_files env p b s) = fst (get_gitignored_files env p b s')"
  using run_command_fst_cong[of s s' env "ls_files_cmd" "Some (local_path p)"]
    run_command_fst_cong[of s s' env "remote_ls_files_cmd p" None]
  by (auto simp: get_gitignored_files_def Let_def split: prod.splits)

lemma get_gitignored_files_world:
  "detection_read_only env p \<Longrightarrow> world (snd (get_gitignored_files env p b s)) = world s"
  using run_command_read_only[of env "ls_files_cmd" "Some (local_path p)" s]
     run_command_read_only[of env "remote_ls_files_cmd p" None s]
  by (auto simp: get_gitignored_files_def detection_read_only_def Let_def split: prod.splits)

lemma get_file_mtime_local_state: "snd (get_file_mtime env p f True s) = s"
  by (simp add: get_file_mtime_def Let_def)

lemma detect_loop_spec:
  assumes ro: "\<forall>f. read_only env (remote_stat_cmd p f) None"
  shows "fst (detect_loop env p fs acc s) = acc @ map (conflict_of env p s) (filter (differs env p s) fs)
         \<and> world (snd (detect_loop env p fs acc s)) = world s"
proof (induction fs arbitrary: acc s)
  case Nil
  show ?case by simp
next
  case (Cons f fs)
  obtain lt s1 where l: "get_file_mtime env p f True s = (lt, s1)" by (cases "get_file_mtime env p f True s")
  obtain rt s2 where r: "get_file_mtime env p f False s1 = (rt, s2)" by (cases "get_file_mtime env p f False s1")
  from l have s1: "s1 = s" and lt: "lt = local_mtime env p s f"
    using get_file_mtime_local_state[of env p f s] by (simp_all add: local_mtime_def)
  from r s1 have rt: "rt = remote_mtime env p s f" by (simp add: remote_mtime_def)
  from r s1 have w2: "world s2 = world s"
    using get_file_mtime_world[of env p f False s] ro by simp
  have same: "conflict_of env p s2 = conflict_of env p s" "differs env p s2 = differs env p s"
    using get_file_mtime_cong[OF w2, of env p]
    by (auto simp: conflict_of_def differs_def local_mtime_def remote_mtime_def fun_eq_iff)
  have tr: "truthy lt = (lt \<noteq> None)" "truthy rt = (rt \<noteq> None)"
    using get_file_mtime_truthy[of env p f True s] get_file_mtime_truthy[of env p f False s]
    by (simp_all add: lt rt local_mtime_def remote_mtime_def)
  show ?case
    using Cons.IH[of _ s2] l r
    by (simp add: same w2 tr) (simp add: lt rt differs_def conflict_of_def)
qed

lemma detect_conflicts_spec:
  assumes ro: "detection_read_only env p"
  shows "fst (detect_conflicts env p dir s) =
           map (conflict_of env p s) (filter (differs env p s) (set_iter env (common_files env p s)))"
proof -
  obtain lf s1 where l: "get_gitignored_files env p True s = (lf, s1)" by (cases "get_gitignored_files env p True s")
  obtain rf s2 where r: "get_gitignored_files env p False s1 = (rf, s2)" by (cases "get_gitignored_files env p False s1")
  have w1: "world s1 = world s" using get_gitignored_files_world[OF ro, of True s] l by simp
  have w2: "world s2 = world s" using get_gitignored_files_world[OF ro, of False s1] r w1 by simp
  have lf: "lf = local_files env p s" using l by (simp add: local_files_def)
  have rf: "rf = remote_files env p s"
    using r get_gitignored_files_cong[OF w1, of env p False] by (simp add: remote_files_def)
  have same: "conflict_of env p s2 = conflict_of env p s" "differs env p s2 = differs env p s"
    using get_file_mtime_cong[OF w2, of env p]
    by (auto simp: conflict_of_def differs_def local_mtime_def remote_mtime_def fun_eq_iff)
  from ro have ro': "\<forall>f. read_only env (remote_stat_cmd p f) None" by (simp add: detection_read_only_def)
  show ?thesis
    using detect_loop_spec[OF ro', of "set_iter env (set lf \<inter> set rf)" "[]" s2]
    by (simp add: detect_conflicts_def l r same) (simp add: lf rf common_files_def)
qed


lemma demo_strftime:
  "strftime (demo_datetime t) = (if t = 60 then ''1970-01-01 00:01:00'' else ''1970-01-01 00:00:00'')"
  by (simp add: strftime_def zero_pad_def demo_datetime_def digit_chars_def)










section \<open>Unresolved modification times\<close>



lemma get_file_mtime_events:
  "\<exists>evs. trace (snd (get_file_mtime env p f b s)) = trace s @ evs \<and> list_all is_query evs"
  using run_command_trace[of env "remote_stat_cmd p f" None s]
  by (auto simp: get_file_mtime_def Let_def is_query_def remote_stat_cmd_def split: prod.splits)

lemma get_gitignored_files_events:
  "\<exists>evs. trace (snd (get_gitignored_files env p b s)) = trace s @ evs \<and> list_all is_query evs"
  using run_command_trace[of env ls_files_cmd "Some (local_path p)" s]
    run_command_trace[of env "remote_ls_files_cmd p" None s]
  by (auto simp: get_gitignored_files_def is_query_def ls_files_cmd_def remote_ls_files_cmd_def
      split: prod.splits)

lemma detect_loop_events:
  "\<exists>evs. trace (snd (detect_loop env p fs acc s)) = trace s @ evs \<and> list_all is_query evs"
proof (induction fs arbitrary: acc s)
  case Nil
  show ?case by simp
next
  case (Cons f fs)
  obtain lt s1 where l: "get_file_mtime env p f True s = (lt, s1)" by (cases "get_file_mtime env p f True s")
  obtain rt s2 where r: "get_file_mtime env p f False s1 = (rt, s2)" by (cases "get_file_mtime env p f False s1")
  from get_file_mtime_events[of env p f True s] l
  obtain e1 where e1: "trace s1 = trace s @ e1" "list_all is_query e1" by auto
  from get_file_mtime_events[of env p f False s1] r
  obtain e2 where e2: "trace s2 = trace s1 @ e2" "list_all is_query e2" by auto
  define acc' where "acc' = (if truthy lt \<and> truthy rt \<and> lt \<noteq> rt
                  then acc @ [\<lparr>conflict_file = f, local_time = the lt, remote_time = the rt\<rparr>]
                  else acc)"
  from Cons.IH[of acc' s2]
  obtain e3 where e3: "trace (snd (detect_loop env p fs acc' s2)) = trace s2 @ e3" "list_all is_query e3" by blast
  have "detect_loop env p (f # fs) acc s = detect_loop env p fs acc' s2"
    by (simp add: l r acc'_def)
  then show ?case
    using e1 e2 e3 by (intro exI[of _ "e1 @ e2 @ e3"]) simp
qed

lemma detect_conflicts_events:
  "\<exists>evs. trace (snd (detect_conflicts env p dir s)) = trace s @ evs \<and> list_all is_query evs"
proof -
  obtain lf s1 where l: "get_gitignored_files env p True s = (lf, s1)" by (cases "get_gitignored_files env p True s")
  obtain rf s2 where r: "get_gitignored_files env p False s1 = (rf, s2)" by (cases "get_gitignored_files env p False s1")
  from get_gitignored_files_events[of env p True s] l
  obtain e1 where e1: "trace s1 = trace s @ e1" "list_all is_query e1" by auto
  from get_gitignored_files_events[of env p False s1] r
  obtain e2 where e2: "trace s2 = trace s1 @ e2" "list_all is_query e2" by auto
  from detect_loop_events[of env p "set_iter env (set lf \<inter> set rf)" "[]" s2]
  obtain e3 where e3: "trace (snd (detect_loop env p (set_iter env (set lf \<inter> set rf)) [] s2)) = trace s2 @ e3"
     "list_all is_query e3" by blast
  have "detect_conflicts env p dir s = detect_loop env p (set_iter env (set lf \<inter> set rf)) [] s2"
    by (simp add: detect_conflicts_def l r)
  then show ?thesis
    using e1 e2 e3 by (intro exI[of _ "e1 @ e2 @ e3"]) simp
qed






section \<open>The conflict dialog: apply to all remaining\<close>

lemma update_fresh: "k \<notin> fst ` set al \<Longrightarrow> AList.update k v al = al @ [(k, v)]"
  by (induction al) auto

lemma fold_update_fresh:
  assumes "distinct (map key xs)" and "\<forall>x \<in> set xs. key x \<notin> fst ` set al"
  shows "fold (\<lambda>x r. AList.update (key x) v r) xs al = al @ map (\<lambda>x. (key x, v)) xs"
  using assms
proof (induction xs arbitrary: al)
  case Nil
  show ?case by simp
next
  case (Cons x xs)
  have 1: "AList.update (key x) v al = al @ [(key x, v)]"
    using Cons.prems(2) by (simp add: update_fresh)
  have 2: "\<forall>y \<in> set xs. key y \<notin> fst ` set (al @ [(key x, v)])"
    using Cons.prems by (auto simp: image_iff)
  have 3: "distinct (map key xs)" using Cons.prems(1) by simp
  show ?case
    using Cons.IH[OF 3 2] by (simp add: 1)
qed

lemma decided_keys: "i \<le> length cs \<Longrightarrow> map fst (decided cs chosen i) = take i (map conflict_file cs)"
  by (auto simp: decided_def intro!: nth_equalityI)

lemma decided_fresh:
  assumes "distinct (map conflict_file cs)" "i \<le> j" "j < length cs"
  shows "conflict_file (cs ! j) \<notin> fst ` set (decided cs chosen i)"
proof
  assume "conflict_file (cs ! j) \<in> fst ` set (decided cs chosen i)"
  then obtain l where l: "l < i" "conflict_file (cs ! l) = conflict_file (cs ! j)"
    by (auto simp: decided_def)
  with assms have "map conflict_file cs ! l = map conflict_file cs ! j" "l < length cs" "l \<noteq> j" by auto
  with assms(1,3) show False by (simp add: nth_eq_iff_index_eq del: nth_map)
qed

lemma decided_Suc: "decided cs chosen (Suc i) = decided cs chosen i @ [(conflict_file (cs ! i), chosen i)]"
  by (simp add: decided_def)

lemma resolve_one:
  assumes "distinct (map conflict_file (conflicts d))" "current_index d < length (conflicts d)"
    "results d = decided (conflicts d) chosen (current_index d)" "chosen (current_index d) = c"
  shows "resolve d c False =
           Inr (show_conflict (d\<lparr>results := decided (conflicts d) chosen (Suc (current_index d)),
                                 current_index := Suc (current_index d)\<rparr>) (Suc (current_index d)))"
  using assms decided_fresh[OF assms(1) le_refl assms(2), of chosen]
  by (simp add: resolve_def Let_def update_fresh decided_Suc)

lemma resolve_all:
  assumes "distinct (map conflict_file (conflicts d))" "current_index d < length (conflicts d)"
    "results d = decided (conflicts d) chosen (current_index d)"
  shows "resolve d c True =
           Inr (d\<lparr>results := decided (conflicts d)
                                (\<lambda>j. if j < current_index d then chosen j else c) (length (conflicts d)),
                  destroyed := True\<rparr>)"
proof -
  let ?cs = "conflicts d" and ?k = "current_index d"
  let ?ch = "\<lambda>j. if j < ?k then chosen j else c"
  have same: "decided ?cs chosen ?k = decided ?cs ?ch ?k" by (simp add: decided_def)
  have r1: "AList.update (conflict_file (?cs ! ?k)) c (results d) = decided ?cs ?ch (Suc ?k)"
    using decided_fresh[OF assms(1) le_refl assms(2), of chosen] assms(3)
    by (simp add: update_fresh decided_Suc same)
  have d2: "distinct (map (\<lambda>i. conflict_file (?cs ! i)) [Suc ?k ..< length ?cs])"
    using assms(1) by (auto simp: distinct_map inj_on_def nth_eq_iff_index_eq distinct_conv_nth)
  have f2: "\<forall>i \<in> set [Suc ?k ..< length ?cs]. conflict_file (?cs ! i) \<notin> fst ` set (decided ?cs ?ch (Suc ?k))"
    using decided_fresh[OF assms(1), of "Suc ?k" _ ?ch] by auto
  have "fold (\<lambda>i r. AList.update (conflict_file (?cs ! i)) c r) [Suc ?k ..< length ?cs] (decided ?cs ?ch (Suc ?k))
        = decided ?cs ?ch (Suc ?k) @ map (\<lambda>i. (conflict_file (?cs ! i), c)) [Suc ?k ..< length ?cs]"
    by (rule fold_update_fresh[OF d2 f2])
  also have "\<dots> = decided ?cs ?ch (length ?cs)"
  proof -
    have "[0..<length ?cs] = [0..<Suc ?k] @ [Suc ?k..<length ?cs]"
      using assms(2) by (metis Suc_leI le0 upt_add_eq_append le_add_diff_inverse)
    then have "decided ?cs ?ch (length ?cs) =
       decided ?cs ?ch (Suc ?k) @ map (\<lambda>j. (conflict_file (?cs ! j), ?ch j)) [Suc ?k..<length ?cs]"
      unfolding decided_def by (simp only: map_append)
    moreover have "map (\<lambda>j. (conflict_file (?cs ! j), ?ch j)) [Suc ?k..<length ?cs]
        = map (\<lambda>i. (conflict_file (?cs ! i), c)) [Suc ?k ..< length ?cs]"
      by (rule map_cong) auto
    ultimately show ?thesis by simp
  qed
  finally show ?thesis
    using assms(2) by (simp add: resolve_def Let_def r1)
qed


lemma wait_window_destroyed: "destroyed d \<Longrightarrow> wait_window user d = d"
  by (subst wait_window.simps) simp

lemma wait_window_resolve:
  "\<not> destroyed d \<Longrightarrow> user (current_index d) = Resolve c a \<Longrightarrow> resolve d c a = Inr d' \<Longrightarrow>
   wait_window user d = wait_window user d'"
  by (subst wait_window.simps) simp


lemma wait_window_apply_all:
  assumes "distinct (map conflict_file (conflicts d))" "\<not> destroyed d"
    "current_index d \<le> k" "k < length (conflicts d)"
    "results d = decided (conflicts d) chosen (current_index d)"
    "\<forall>j<k. user j = Resolve (chosen j) False" "user k = Resolve c True"
  shows "wait_window user d =
           d\<lparr>results := decided (conflicts d) (\<lambda>j. if j < k then chosen j else c) (length (conflicts d)),
             current_index := k, destroyed := True\<rparr>"
  using assms
proof (induction "k - current_index d" arbitrary: d)
  case 0
  then have k: "current_index d = k" by simp
  have r: "resolve d c True =
           Inr (d\<lparr>results := decided (conflicts d) (\<lambda>j. if j < k then chosen j else c) (length (conflicts d)),
                  destroyed := True\<rparr>)"
    using resolve_all[of d chosen c] "0.prems" k by simp
  show ?case
    using wait_window_resolve[of d user c True, OF "0.prems"(2) _ r] "0.prems"(7) k
    by (simp add: wait_window_destroyed)
next
  case (Suc n)
  let ?i = "current_index d"
  let ?d' = "d\<lparr>results := decided (conflicts d) chosen (Suc ?i), current_index := Suc ?i\<rparr>"
  from Suc.hyps(2) have lt: "?i < k" by simp
  with Suc.prems have u: "user ?i = Resolve (chosen ?i) False" and il: "?i < length (conflicts d)" by auto
  have r: "resolve d (chosen ?i) False = Inr (show_conflict ?d' (Suc ?i))"
    using resolve_one[of d chosen "chosen ?i"] Suc.prems il by simp
  have sc: "show_conflict ?d' (Suc ?i) = ?d'"
    using lt Suc.prems(4) by (simp add: show_conflict_def)
  have step: "wait_window user d = wait_window user ?d'"
    using wait_window_resolve[of d user "chosen ?i" False, OF Suc.prems(2) u] r sc by simp
  have "wait_window user ?d' =
          ?d'\<lparr>results := decided (conflicts ?d') (\<lambda>j. if j < k then chosen j else c) (length (conflicts ?d')),
             current_index := k, destroyed := True\<rparr>"
  proof (rule Suc.hyps(1))
    show "n = k - current_index ?d'" using Suc.hyps(2) by simp
  qed (use Suc.prems lt in simp_all)
  with step show ?case by simp
qed

text \<open>
  Claim C2. Over \<open>n\<close> conflicts with pairwise different files (as the detection yields
  them), when the user decides the conflicts \<open>0, \<dots>, k - 1\<close> one by one and decides
  conflict \<open>k\<close> with "apply to all remaining" ticked, the dialog closes, not cancelled,
  with exactly \<open>n\<close> entries: entry \<open>i\<close> is the file of conflict \<open>i\<close> with the choice made
  for it when \<open>i < k\<close>, and with the choice made at \<open>k\<close> when \<open>k \<le> i\<close>.
\<close>

theorem apply_to_all_remaining:
  assumes "distinct (map conflict_file cs)" and "k < length cs"
    and "\<forall>i<k. user i = Resolve (chosen i) False" and "user k = Resolve c True"
  shows "length (results (ConflictDialog cs user)) = length cs \<and>
         (\<forall>i<length cs. results (ConflictDialog cs user) ! i =
                            (conflict_file (cs ! i), if i < k then chosen i else c)) \<and>
         \<not> cancelled (ConflictDialog cs user) \<and> destroyed (ConflictDialog cs user)"
proof -
  let ?d0 = "\<lparr>conflicts = cs, results = [], cancelled = False, current_index = 0, destroyed = False\<rparr>"
  have s0: "show_conflict ?d0 0 = ?d0" using assms(2) by (auto simp: show_conflict_def)
  have "wait_window user ?d0 =
          ?d0\<lparr>results := decided (conflicts ?d0) (\<lambda>j. if j < k then chosen j else c) (length (conflicts ?d0)),
              current_index := k, destroyed := True\<rparr>"
    by (rule wait_window_apply_all[where chosen = chosen]) (use assms in \<open>simp_all add: decided_def\<close>)
  then have "ConflictDialog cs user =
     \<lparr>conflicts = cs, results = decided cs (\<lambda>j. if j < k then chosen j else c) (length cs),
      cancelled = False, current_index = k, destroyed = True\<rparr>"
    by (simp add: ConflictDialog_def s0)
  then show ?thesis by (simp add: decided_def)
qed

theorem apply_to_all_remaining_witness:
  "distinct (map conflict_file three_conflicts) \<and> (1::nat) < length three_conflicts \<and>
   local_then_skip_all 0 = Resolve Local False \<and> local_then_skip_all 1 = Resolve Skip True \<and>
   length (results (ConflictDialog three_conflicts local_then_skip_all)) = 3 \<and>
   results (ConflictDialog three_conflicts local_then_skip_all) ! 0 = (''a.txt'', Local) \<and>
   results (ConflictDialog three_conflicts local_then_skip_all) ! 1 = (''b.txt'', Skip) \<and>
   results (ConflictDialog three_conflicts local_then_skip_all) ! 2 = (''c.txt'', Skip)"
proof -
  have h1: "distinct (map conflict_file three_conflicts)" by (simp add: three_conflicts_def)
  have h2: "(1::nat) < length three_conflicts" by (simp add: three_conflicts_def)
  have h3: "\<forall>i<1. local_then_skip_all i = Resolve ((\<lambda>i. Local) i) False" by (simp add: local_then_skip_all_def)
  have h4: "local_then_skip_all 1 = Resolve Skip True" by (simp add: local_then_skip_all_def)
  note t = apply_to_all_remaining[OF h1 h2 h3 h4]
  have len: "length three_conflicts = 3" by (simp add: three_conflicts_def)
  from t have n: "\<forall>i<3. results (ConflictDialog three_conflicts local_then_skip_all) ! i =
                            (conflict_file (three_conflicts ! i), if i < 1 then Local else Skip)"
    unfolding len by blast
  from n have "results (ConflictDialog three_conflicts local_then_skip_all) ! 0 = (conflict_file (three_conflicts ! 0), Local)"
     "results (ConflictDialog three_conflicts local_then_skip_all) ! 1 = (conflict_file (three_conflicts ! 1), Skip)"
     "results (ConflictDialog three_conflicts local_then_skip_all) ! 2 = (conflict_file (three_conflicts ! 2), Skip)"
    by simp_all
  then have e: "results (ConflictDialog three_conflicts local_then_skip_all) ! 0 = (''a.txt'', Local)"
      "results (ConflictDialog three_conflicts local_then_skip_all) ! 1 = (''b.txt'', Skip)"
      "results (ConflictDialog three_conflicts local_then_skip_all) ! 2 = (''c.txt'', Skip)"
    by (simp_all add: three_conflicts_def)
  from t have l: "length (results (ConflictDialog three_conflicts local_then_skip_all)) = 3"
    unfolding len by blast
  show ?thesis
    by (intro conjI h1 h2 h4 e l) (simp add: local_then_skip_all_def)
qed

section \<open>Loading the project store\<close>

lemma load_not_a_dictionary:
  "config_exists st \<Longrightarrow> config_read st = Inr text \<Longrightarrow> json_loads text = Inr (PList xs) \<Longrightarrow>
   load json_loads st = Inl AttributeError"
  by (simp add: load_def py_get_def)

lemma load_undecodable:
  "config_exists st \<Longrightarrow> config_read st = Inl UnicodeDecodeError \<Longrightarrow>
   load json_loads st = Inl UnicodeDecodeError"
  by (simp add: load_def)



section \<open>Transfers: what is listed, written and run\<close>

lemma get_gitignored_files_trace:
  "trace (snd (get_gitignored_files env p (dir = ToRemote) s)) = trace s @ [listing_event p dir]"
  using run_command_trace[of env ls_files_cmd "Some (local_path p)" s]
    run_command_trace[of env "remote_ls_files_cmd p" None s]
  by (auto simp: get_gitignored_files_def listing_event_def split: prod.splits)

lemma authoritative_files_status [simp]:
  "authoritative_files env p dir (set_status msg color s) = authoritative_files env p dir s"
  unfolding authoritative_files_def
  by (rule get_gitignored_files_cong) (simp add: set_status_def emit_def)




lemma transfer_nothing:
  assumes "filter (\<lambda>f. f \<notin> set exclude_files) (authoritative_files env p dir s) = []"
  shows "fst (transfer env p dir exclude_files s) = True"
    and "trace (snd (transfer env p dir exclude_files s)) =
           trace s @ [syncing_status dir, listing_event p dir, nothing_to_do]"
proof -
  let ?s1 = "set_status (if dir = ToRemote then ''Syncing untracked files to remote...''
                  else ''Syncing untracked files from remote...'') ''blue'' s"
  obtain listed s2 where g: "get_gitignored_files env p (dir = ToRemote) ?s1 = (listed, s2)"
    by (cases "get_gitignored_files env p (dir = ToRemote) ?s1")
  from g have "listed = authoritative_files env p dir ?s1" by (simp add: authoritative_files_def)
  then have l: "listed = authoritative_files env p dir s" by simp
  have t2: "trace s2 = trace s @ [syncing_status dir, listing_event p dir]"
    using get_gitignored_files_trace[of env p dir ?s1] g
    by (simp add: set_status_def emit_def syncing_status_def)
  have r: "transfer env p dir exclude_files s = (True, set_status ''No untracked files to sync'' ''gray'' s2)"
    using assms by (simp add: transfer_def Let_def g l)
  show "fst (transfer env p dir exclude_files s) = True" by (simp add: r)
  show "trace (snd (transfer env p dir exclude_files s)) =
           trace s @ [syncing_status dir, listing_event p dir, nothing_to_do]"
    by (simp add: r t2 set_status_def emit_def nothing_to_do_def)
qed

lemma transfer_some:
  assumes "filter (\<lambda>f. f \<notin> set exclude_files) (authoritative_files env p dir s) = files" "files \<noteq> []"
  shows "\<exists>report. trace (snd (transfer env p dir exclude_files s)) =
           trace s @ [syncing_status dir, listing_event p dir,
                      TempFile (temp_file_of env p dir files s) (str_join newline files),
                      Run (rsync_cmd dir p (temp_file_of env p dir files s)) None] @ report @
                     [Unlink (temp_file_of env p dir files s)] \<and>
           list_all is_report report"
proof -
  let ?s1 = "set_status (if dir = ToRemote then ''Syncing untracked files to remote...''
                  else ''Syncing untracked files from remote...'') ''blue'' s"
  obtain listed s2 where g: "get_gitignored_files env p (dir = ToRemote) ?s1 = (listed, s2)"
    by (cases "get_gitignored_files env p (dir = ToRemote) ?s1")
  from g have "listed = authoritative_files env p dir ?s1" by (simp add: authoritative_files_def)
  then have l: "listed = authoritative_files env p dir s" by simp
  have t2: "trace s2 = trace s @ [syncing_status dir, listing_event p dir]"
    using get_gitignored_files_trace[of env p dir ?s1] g
    by (simp add: set_status_def emit_def syncing_status_def)
  have w2: "world s2 = world (snd (get_gitignored_files env p (dir = ToRemote) s))"
  proof -
    have "world (snd (get_gitignored_files env p b s')) =
            snd (subprocess_run env (if b then ls_files_cmd else remote_ls_files_cmd p)
                   (if b then Some (local_path p) else None) (world s'))" for b s'
      using run_command_world[of env ls_files_cmd "Some (local_path p)" s']
        run_command_world[of env "remote_ls_files_cmd p" None s']
      by (auto simp: get_gitignored_files_def split: prod.splits)
    from this[of "dir = ToRemote" ?s1] this[of "dir = ToRemote" s] g show ?thesis
      by (simp add: set_status_def emit_def)
  qed
  obtain tf w3 where n: "named_temporary_file env (str_join newline files) (world s2) = (tf, w3)"
    by (cases "named_temporary_file env (str_join newline files) (world s2)")
  have tf: "tf = temp_file_of env p dir files s" using n w2 by (simp add: temp_file_of_def)
  let ?s3 = "emit (TempFile tf (str_join newline files)) (s2\<lparr>world := w3\<rparr>)"
  let ?cmd = "if dir = ToRemote then rsync_to_remote_cmd p tf else rsync_from_remote_cmd p tf"
  obtain success out s4 where rc: "run_command env ?cmd None ?s3 = ((success, out), s4)"
    by (cases "run_command env ?cmd None ?s3") auto
  have t4: "trace s4 = trace s @ [syncing_status dir, listing_event p dir,
                      TempFile tf (str_join newline files), Run (rsync_cmd dir p tf) None]"
    using run_command_trace[of env ?cmd None ?s3] rc
    by (simp add: t2 emit_def rsync_cmd_def)
  have fl: "filter (\<lambda>f. f \<notin> set exclude_files) listed = files" using assms(1) l by simp
  define s5 where "s5 = (if success then
       set_status (''Synced '' @ decimal (length files) @
          (if dir = ToRemote then '' files to remote'' else '' files from remote'')) ''green'' s4
     else showerror ''Error'' (''Sync failed:'' @ newline @ out) (set_status ''Sync failed'' ''red'' s4))"
  define report where "report = (if success then
       [Status (''Synced '' @ decimal (length files) @
          (if dir = ToRemote then '' files to remote'' else '' files from remote'')) ''green'']
     else [Status ''Sync failed'' ''red'', ShowError ''Error'' (''Sync failed:'' @ newline @ out)])"
  have r: "transfer env p dir exclude_files s =
             (success, emit (Unlink tf) (s5\<lparr>world := os_unlink env tf (world s5)\<rparr>))"
    unfolding transfer_def Let_def g prod.case fl n rc s5_def using assms(2) by simp
  have t5: "trace s5 = trace s4 @ report"
    by (simp add: s5_def report_def set_status_def emit_def showerror_def)
  have nt: "list_all is_report report"
    by (simp add: report_def)
  have "trace (snd (transfer env p dir exclude_files s)) = trace s4 @ report @ [Unlink tf]"
    by (simp add: r emit_def t5)
  then show ?thesis
    unfolding t4 tf[symmetric] using nt by (intro exI[of _ report]) simp
qed

section \<open>Synchronising: what is transferred\<close>

lemma sync_phases:
  "sync env dir (Some p) rc s =
     (case resolution_phase env p dir rc s of
        (None, s2) \<Rightarrow> (False, set_status ''Sync cancelled'' ''gray'' s2)
      | (Some res, s2) \<Rightarrow> transfer env p dir (exclude_files_of dir res) s2)"
  by (simp add: sync_def resolution_phase_def Let_def exclude_files_of_def split: prod.splits)

lemma open_conflict_dialog_trace: "trace (snd (open_conflict_dialog env cs s)) = trace s"
  by (simp add: open_conflict_dialog_def split: prod.splits)

lemma resolution_phase_events:
  "\<exists>evs. trace (snd (resolution_phase env p dir rc s)) =
           trace s @ Status ''Checking for conflicts...'' ''blue'' # evs \<and> list_all is_query evs"
proof -
  let ?s0 = "set_status ''Checking for conflicts...'' ''blue'' s"
  have t0: "trace ?s0 = trace s @ [Status ''Checking for conflicts...'' ''blue'']"
    by (simp add: set_status_def emit_def)
  obtain cs s1 where d: "detect_conflicts env p dir ?s0 = (cs, s1)" by (cases "detect_conflicts env p dir ?s0")
  from detect_conflicts_events[of env p dir ?s0] d
  obtain evs where e: "trace s1 = trace ?s0 @ evs" "list_all is_query evs" by auto
  obtain dlg s2 where o: "open_conflict_dialog env cs s1 = (dlg, s2)" by (cases "open_conflict_dialog env cs s1")
  have t2: "trace s2 = trace s1" using open_conflict_dialog_trace[of env cs s1] o by simp
  show ?thesis
  proof (cases "rc \<and> cs \<noteq> []")
    case True
    then have "snd (resolution_phase env p dir rc s) = s2"
      by (simp add: resolution_phase_def Let_def d o)
    then show ?thesis using e t0 t2 by (intro exI[of _ evs]) simp
  next
    case False
    then have "snd (resolution_phase env p dir rc s) = (if rc then s1 else ?s0)"
      by (auto simp: resolution_phase_def Let_def d)
    then show ?thesis using e t0
      by (cases rc) (auto intro: exI[of _ evs] exI[of _ "[]"])
  qed
qed

lemma is_transfer_listing [simp]: "\<not> is_transfer (listing_event p dir)"
  by (simp add: listing_event_def ls_files_cmd_def remote_ls_files_cmd_def)

lemma is_transfer_misc [simp]: "\<not> is_transfer (syncing_status dir)" "\<not> is_transfer nothing_to_do"
  "take 5 (rsync_cmd dir p tf) = ''rsync''"
  by (simp_all add: syncing_status_def nothing_to_do_def rsync_cmd_def rsync_to_remote_cmd_def
      rsync_from_remote_cmd_def)

lemma report_not_transfer: "list_all is_report evs \<Longrightarrow> list_all (\<lambda>e. \<not> is_transfer e) evs"
  by (induction evs) (auto elim: is_report.elims)

lemma filter_is_transfer_none: "list_all (\<lambda>e. \<not> is_transfer e) evs \<Longrightarrow> filter is_transfer evs = []"
  by (induction evs) auto

lemma transfer_transfer_events:
  "filter is_transfer (new_events s (snd (transfer env p dir exclude_files s))) =
     transfer_events env p dir (filter (\<lambda>f. f \<notin> set exclude_files) (authoritative_files env p dir s)) s"
proof (cases "filter (\<lambda>f. f \<notin> set exclude_files) (authoritative_files env p dir s) = []")
  case True
  show ?thesis
    using transfer_nothing(2)[OF True] by (simp add: new_events_def transfer_events_def True)
next
  case False
  from transfer_some[OF refl False]
  obtain report where
    "trace (snd (transfer env p dir exclude_files s)) =
       trace s @ [syncing_status dir, listing_event p dir,
         TempFile (temp_file_of env p dir (filter (\<lambda>f. f \<notin> set exclude_files) (authoritative_files env p dir s)) s)
           (str_join newline (filter (\<lambda>f. f \<notin> set exclude_files) (authoritative_files env p dir s))),
         Run (rsync_cmd dir p (temp_file_of env p dir (filter (\<lambda>f. f \<notin> set exclude_files) (authoritative_files env p dir s)) s)) None]
        @ report @
        [Unlink (temp_file_of env p dir (filter (\<lambda>f. f \<notin> set exclude_files) (authoritative_files env p dir s)) s)]"
    and "list_all is_report report"
    by blast
  then show ?thesis
    using False by (simp add: new_events_def transfer_events_def filter_is_transfer_none report_not_transfer)
qed






lemma transfer_extends: "\<exists>evs. trace (snd (transfer env p dir exclude_files s)) = trace s @ evs"
proof (cases "filter (\<lambda>f. f \<notin> set exclude_files) (authoritative_files env p dir s) = []")
  case True
  from transfer_nothing(2)[OF True] show ?thesis by blast
next
  case False
  from transfer_some[OF refl False] show ?thesis by (metis append_Cons append_assoc)
qed

lemma new_events_append:
  "trace s1 = trace s @ a \<Longrightarrow> trace s2 = trace s1 @ b \<Longrightarrow> new_events s s2 = a @ new_events s1 s2"
  by (simp add: new_events_def)

lemma sync_after_resolution:
  assumes "resolution_phase env p dir rc s = (Some res, s2)"
  shows "sync env dir (Some p) rc s = transfer env p dir (exclude_files_of dir res) s2"
    and "filter is_transfer (new_events s (snd (sync env dir (Some p) rc s))) =
         filter is_transfer (new_events s2 (snd (transfer env p dir (exclude_files_of dir res) s2)))"
proof -
  show eq: "sync env dir (Some p) rc s = transfer env p dir (exclude_files_of dir res) s2"
    by (simp add: sync_phases assms)
  from resolution_phase_events[of env p dir rc s] assms
  obtain evs where e: "trace s2 = trace s @ Status ''Checking for conflicts...'' ''blue'' # evs"
      "list_all is_query evs" by auto
  from transfer_extends[of env p dir "exclude_files_of dir res" s2]
  obtain b where b: "trace (snd (transfer env p dir (exclude_files_of dir res) s2)) = trace s2 @ b" by blast
  have q: "filter is_transfer evs = []"
    using e(2) by (intro filter_is_transfer_none) (simp add: list_all_iff is_query_def)
  show "filter is_transfer (new_events s (snd (sync env dir (Some p) rc s))) =
         filter is_transfer (new_events s2 (snd (transfer env p dir (exclude_files_of dir res) s2)))"
    unfolding eq new_events_append[OF e(1) b] by (simp add: q)
qed

lemma abc_local: "fst (get_gitignored_files (abc_env user) demo_project True s) = [''A'', ''B'', ''C'']"
  by (simp add: get_gitignored_files_def run_command_def abc_env_def scripted_env_def abc_respond_def
      strip_def isspace_def newline_def split: prod.splits)

lemma remote_ls_not_local: "remote_ls_files_cmd p \<noteq> ls_files_cmd"
  by (simp add: ls_files_cmd_def remote_ls_files_cmd_def)

lemma abc_remote: "fst (get_gitignored_files (abc_env user) demo_project False s) = [''A'', ''B'']"
  by (simp add: get_gitignored_files_def run_command_def abc_env_def scripted_env_def abc_respond_def
      strip_def isspace_def newline_def remote_ls_not_local split: prod.splits)

lemma abc_authoritative:
  "authoritative_files (abc_env user) demo_project ToRemote s = [''A'', ''B'', ''C'']"
  "authoritative_files (abc_env user) demo_project FromRemote s = [''A'', ''B'']"
  by (simp_all add: authoritative_files_def abc_local abc_remote)



lemma abc_read_only: "detection_read_only (abc_env user) demo_project"
  by (simp add: detection_read_only_def read_only_def abc_env_def scripted_env_def)

lemma abc_local_mtime: "local_mtime (abc_env user) demo_project s f = Some ''1970-01-01 00:00:00''"
  by (simp add: local_mtime_def get_file_mtime_def abc_env_def scripted_env_def demo_strftime)

lemma stat_not_special:
  "remote_stat_cmd demo_project f \<noteq> ls_files_cmd"
  "remote_stat_cmd demo_project f \<noteq> remote_ls_files_cmd demo_project"
  "take 5 (remote_stat_cmd demo_project f) \<noteq> ''rsync''"
  by (simp_all add: remote_stat_cmd_def ls_files_cmd_def remote_ls_files_cmd_def demo_project_def)

lemma abc_remote_mtime: "remote_mtime (abc_env user) demo_project s f = Some ''1970-01-01 00:01:00''"
  by (simp add: remote_mtime_def get_file_mtime_def run_command_def abc_env_def scripted_env_def
      abc_respond_def stat_not_special emit_def strip_def isspace_def isdigit_def digit_chars_def
      int_of_str_def digit_value_def demo_strftime)

lemma abc_common: "common_files (abc_env user) demo_project s = {''A'', ''B''}"
  by (auto simp: common_files_def local_files_def remote_files_def abc_local abc_remote)

lemma abc_detect: "fst (detect_conflicts (abc_env user) demo_project dir s) = ab_conflicts"
proof -
  have it: "set_iter (abc_env user) {''A'', ''B''} = [''A'', ''B'']"
    by (simp add: abc_env_def scripted_env_def)
  show ?thesis
    by (simp add: detect_conflicts_spec[OF abc_read_only] abc_common it differs_def conflict_of_def
        abc_local_mtime abc_remote_mtime ab_conflicts_def)
qed


lemma ab_dialog_skip: "results (ConflictDialog ab_conflicts skip_all) = [(''A'', Skip), (''B'', Skip)]"
   "\<not> cancelled (ConflictDialog ab_conflicts skip_all)"
  by (simp_all add: ConflictDialog_def show_conflict_def ab_conflicts_def
      skip_all_def resolve_def Let_def)

lemma abc_open: "open_conflict_dialog (abc_env user) cs s = (ConflictDialog cs user, s)"
  by (simp add: open_conflict_dialog_def abc_env_def scripted_env_def)




text \<open>
  Claim C8. In either direction, when no listed file is left after the excluded ones are
  removed, the second half of the sync returns success right after the listing, with the
  status "No untracked files to sync"; and so does the whole sync, with no transfer event
  (no file list, no \<^verbatim>\<open>rsync\<close>) anywhere in its run.
\<close>

theorem nothing_to_sync:
  "(filter (\<lambda>f. f \<notin> set exclude_files) (authoritative_files env p dir s) = [] \<longrightarrow>
      fst (transfer env p dir exclude_files s) = True \<and>
      trace (snd (transfer env p dir exclude_files s)) =
        trace s @ [syncing_status dir, listing_event p dir, nothing_to_do]) \<and>
   (resolution_phase env p dir rc s = (Some res, s2) \<and>
    filter (\<lambda>f. f \<notin> set (exclude_files_of dir res)) (authoritative_files env p dir s2) = [] \<longrightarrow>
      fst (sync env dir (Some p) rc s) = True \<and>
      trace (snd (sync env dir (Some p) rc s)) =
        trace s2 @ [syncing_status dir, listing_event p dir, nothing_to_do] \<and>
      filter is_transfer (new_events s (snd (sync env dir (Some p) rc s))) = [])"
proof (intro conjI impI)
  assume a: "filter (\<lambda>f. f \<notin> set exclude_files) (authoritative_files env p dir s) = []"
  show "fst (transfer env p dir exclude_files s) = True" by (rule transfer_nothing(1)[OF a])
  show "trace (snd (transfer env p dir exclude_files s)) =
        trace s @ [syncing_status dir, listing_event p dir, nothing_to_do]"
    by (rule transfer_nothing(2)[OF a])
next
  assume b: "resolution_phase env p dir rc s = (Some res, s2) \<and>
    filter (\<lambda>f. f \<notin> set (exclude_files_of dir res)) (authoritative_files env p dir s2) = []"
  then have r: "resolution_phase env p dir rc s = (Some res, s2)"
    and e: "filter (\<lambda>f. f \<notin> set (exclude_files_of dir res)) (authoritative_files env p dir s2) = []"
    by simp_all
  show "fst (sync env dir (Some p) rc s) = True"
    unfolding sync_after_resolution(1)[OF r] by (rule transfer_nothing(1)[OF e])
  show "trace (snd (sync env dir (Some p) rc s)) =
        trace s2 @ [syncing_status dir, listing_event p dir, nothing_to_do]"
    unfolding sync_after_resolution(1)[OF r] by (rule transfer_nothing(2)[OF e])
  show "filter is_transfer (new_events s (snd (sync env dir (Some p) rc s))) = []"
    unfolding sync_after_resolution(2)[OF r]
    by (simp add: transfer_transfer_events e transfer_events_def)
qed

lemma abc_resolution_skip:
  "\<exists>s2. resolution_phase (abc_env skip_all) demo_project FromRemote True demo_state =
          (Some [(''A'', Skip), (''B'', Skip)], s2)"
proof -
  obtain cs s1 where d: "detect_conflicts (abc_env skip_all) demo_project FromRemote
        (set_status ''Checking for conflicts...'' ''blue'' demo_state) = (cs, s1)"
    by (cases "detect_conflicts (abc_env skip_all) demo_project FromRemote (set_status ''Checking for conflicts...'' ''blue'' demo_state)")
  then have cs: "cs = ab_conflicts"
    using abc_detect[of skip_all FromRemote "set_status ''Checking for conflicts...'' ''blue'' demo_state"] by simp
  show ?thesis
    by (simp add: resolution_phase_def Let_def d cs abc_open ab_dialog_skip) (simp add: ab_conflicts_def)
qed

theorem nothing_to_sync_witness:
  "filter (\<lambda>f. f \<notin> set [''A'', ''B'']) (authoritative_files (abc_env skip_all) demo_project FromRemote demo_state) = [] \<and>
   fst (transfer (abc_env skip_all) demo_project FromRemote [''A'', ''B''] demo_state) = True \<and>
   trace (snd (transfer (abc_env skip_all) demo_project FromRemote [''A'', ''B''] demo_state)) =
     [syncing_status FromRemote, listing_event demo_project FromRemote, nothing_to_do] \<and>
   (\<exists>s2. resolution_phase (abc_env skip_all) demo_project FromRemote True demo_state =
            (Some [(''A'', Skip), (''B'', Skip)], s2)) \<and>
   fst (sync (abc_env skip_all) FromRemote (Some demo_project) True demo_state) = True \<and>
   filter is_transfer (new_events demo_state
       (snd (sync (abc_env skip_all) FromRemote (Some demo_project) True demo_state))) = []"
proof -
  have e: "filter (\<lambda>f. f \<notin> set [''A'', ''B'']) (authoritative_files (abc_env skip_all) demo_project FromRemote s) = []" for s
    by (simp add: abc_authoritative)
  from abc_resolution_skip obtain s2 where
    r: "resolution_phase (abc_env skip_all) demo_project FromRemote True demo_state = (Some [(''A'', Skip), (''B'', Skip)], s2)"
    by blast
  have x: "exclude_files_of FromRemote [(''A'', Skip), (''B'', Skip)] = [''A'', ''B'']"
    by (simp add: exclude_files_of_def)
  note t = nothing_to_sync[of "[''A'', ''B'']" "abc_env skip_all" demo_project FromRemote demo_state True
      "[(''A'', Skip), (''B'', Skip)]" s2]
  have 1: "fst (transfer (abc_env skip_all) demo_project FromRemote [''A'', ''B''] demo_state) = True"
    using t e by blast
  have 2: "trace (snd (transfer (abc_env skip_all) demo_project FromRemote [''A'', ''B''] demo_state)) =
     [syncing_status FromRemote, listing_event demo_project FromRemote, nothing_to_do]"
    using t e[of demo_state] by (simp add: demo_state_def)
  have 3: "fst (sync (abc_env skip_all) FromRemote (Some demo_project) True demo_state) = True"
    using t r e[of s2] by (simp add: x)
  have 4: "filter is_transfer (new_events demo_state
       (snd (sync (abc_env skip_all) FromRemote (Some demo_project) True demo_state))) = []"
    using t r e[of s2] by (simp add: x)
  show ?thesis
    by (intro conjI e 1 2 3 4 abc_resolution_skip)
qed

section \<open>A listing that fails\<close>

lemma listing_fails_empty:
  "listing_fails_at env p local (world s) \<Longrightarrow> fst (get_gitignored_files env p local s) = []"
  by (auto simp: listing_fails_at_def get_gitignored_files_def run_command_def Let_def
      split: prod.splits proc_result.splits if_splits)

lemma listing_fails_authoritative:
  "listing_fails env p dir \<Longrightarrow> authoritative_files env p dir s = []"
  by (simp add: authoritative_files_def listing_fails_def listing_fails_empty)

lemma listing_fails_no_conflicts:
  assumes "listing_fails env p dir" "set_iter env {} = []"
  shows "fst (detect_conflicts env p dir' s) = []"
proof -
  obtain lf s1 where l: "get_gitignored_files env p True s = (lf, s1)" by (cases "get_gitignored_files env p True s")
  obtain rf s2 where r: "get_gitignored_files env p False s1 = (rf, s2)" by (cases "get_gitignored_files env p False s1")
  have "lf = [] \<or> rf = []"
  proof (cases dir)
    case ToRemote
    then have "listing_fails_at env p True (world s)" using assms(1) by (simp add: listing_fails_def)
    from listing_fails_empty[OF this] l show ?thesis by simp
  next
    case FromRemote
    then have "listing_fails_at env p False (world s1)" using assms(1) by (simp add: listing_fails_def)
    from listing_fails_empty[OF this] r show ?thesis by simp
  qed
  then have "set lf \<inter> set rf = {}" by auto
  then show ?thesis by (simp add: detect_conflicts_def l r assms(2))
qed

lemma listing_fails_resolution:
  assumes "listing_fails env p dir" "set_iter env {} = []"
  shows "fst (resolution_phase env p dir rc s) = Some []"
proof -
  obtain cs s1 where d: "detect_conflicts env p dir (set_status ''Checking for conflicts...'' ''blue'' s) = (cs, s1)"
    by (cases "detect_conflicts env p dir (set_status ''Checking for conflicts...'' ''blue'' s)")
  with listing_fails_no_conflicts[OF assms, of dir "set_status ''Checking for conflicts...'' ''blue'' s"]
  have "cs = []" by simp
  then show ?thesis by (simp add: resolution_phase_def Let_def d)
qed

lemma sync_listing_fails_at:
  assumes r: "resolution_phase env p dir rc s = (Some res, s2)"
    and f: "listing_fails_at env p (dir = ToRemote) (world s2)"
  shows "fst (sync env dir (Some p) rc s) = True"
    and "last (trace (snd (sync env dir (Some p) rc s))) = nothing_to_do"
    and "list_all (\<lambda>e. \<not> is_error e \<and> \<not> is_transfer e) (new_events s (snd (sync env dir (Some p) rc s)))"
proof -
  have "authoritative_files env p dir s2 = []"
    unfolding authoritative_files_def by (rule listing_fails_empty[OF f])
  then have e: "filter (\<lambda>f. f \<notin> set (exclude_files_of dir res)) (authoritative_files env p dir s2) = []"
    by simp
  show "fst (sync env dir (Some p) rc s) = True"
    unfolding sync_after_resolution(1)[OF r] by (rule transfer_nothing(1)[OF e])
  have tr: "trace (snd (sync env dir (Some p) rc s)) =
        trace s2 @ [syncing_status dir, listing_event p dir, nothing_to_do]"
    unfolding sync_after_resolution(1)[OF r] by (rule transfer_nothing(2)[OF e])
  then show "last (trace (snd (sync env dir (Some p) rc s))) = nothing_to_do" by simp
  from resolution_phase_events[of env p dir rc s] r
  obtain evs where ev: "trace s2 = trace s @ Status ''Checking for conflicts...'' ''blue'' # evs"
    "list_all is_query evs" by auto
  have "new_events s (snd (sync env dir (Some p) rc s)) =
          Status ''Checking for conflicts...'' ''blue'' # evs @ [syncing_status dir, listing_event p dir, nothing_to_do]"
    by (simp add: new_events_def tr ev)
  moreover have "list_all (\<lambda>e. \<not> is_error e \<and> \<not> is_transfer e) evs"
    using ev(2) by (induction evs) (auto simp: is_query_def elim: is_command.elims)
  moreover have "\<not> is_error (syncing_status dir)" "\<not> is_error (listing_event p dir)" "\<not> is_error nothing_to_do"
    by (simp_all add: syncing_status_def listing_event_def nothing_to_do_def)
  ultimately show "list_all (\<lambda>e. \<not> is_error e \<and> \<not> is_transfer e) (new_events s (snd (sync env dir (Some p) rc s)))"
    by simp
qed

text \<open>
  Claim C10. When the listing command exits with a code other than zero, prints nothing,
  times out or cannot be run, \<^verbatim>\<open>_get_gitignored_files\<close> gives the empty list. So a sync
  whose listing of the authoritative side fails when its second half runs it, and a sync
  in an environment where that listing always fails, returns success with the status
  "No untracked files to sync"; it shows no error and transfers nothing.
\<close>

theorem failed_listing_nothing_to_do:
  "(listing_fails_at env p local (world s) \<longrightarrow> fst (get_gitignored_files env p local s) = []) \<and>
   (resolution_phase env p dir rc s = (Some res, s2) \<and> listing_fails_at env p (dir = ToRemote) (world s2) \<longrightarrow>
      fst (sync env dir (Some p) rc s) = True \<and>
      last (trace (snd (sync env dir (Some p) rc s))) = nothing_to_do \<and>
      list_all (\<lambda>e. \<not> is_error e \<and> \<not> is_transfer e) (new_events s (snd (sync env dir (Some p) rc s)))) \<and>
   (listing_fails env p dir \<and> set_iter env {} = [] \<longrightarrow>
      fst (sync env dir (Some p) rc s) = True \<and>
      last (trace (snd (sync env dir (Some p) rc s))) = nothing_to_do \<and>
      list_all (\<lambda>e. \<not> is_error e \<and> \<not> is_transfer e) (new_events s (snd (sync env dir (Some p) rc s))))"
proof (intro conjI impI)
  assume "listing_fails_at env p local (world s)"
  then show "fst (get_gitignored_files env p local s) = []" by (rule listing_fails_empty)
next
  assume "resolution_phase env p dir rc s = (Some res, s2) \<and> listing_fails_at env p (dir = ToRemote) (world s2)"
  then have r: "resolution_phase env p dir rc s = (Some res, s2)"
    and f: "listing_fails_at env p (dir = ToRemote) (world s2)" by simp_all
  show "fst (sync env dir (Some p) rc s) = True" by (rule sync_listing_fails_at(1)[OF r f])
  show "last (trace (snd (sync env dir (Some p) rc s))) = nothing_to_do" by (rule sync_listing_fails_at(2)[OF r f])
  show "list_all (\<lambda>e. \<not> is_error e \<and> \<not> is_transfer e) (new_events s (snd (sync env dir (Some p) rc s)))"
    by (rule sync_listing_fails_at(3)[OF r f])
next
  assume a: "listing_fails env p dir \<and> set_iter env {} = []"
  then have lf: "listing_fails env p dir" and si: "set_iter env {} = []" by simp_all
  obtain s3 where r: "resolution_phase env p dir rc s = (Some [], s3)"
    using listing_fails_resolution[OF lf si, of rc s] by (cases "resolution_phase env p dir rc s") simp
  have f: "listing_fails_at env p (dir = ToRemote) (world s3)" using lf by (simp add: listing_fails_def)
  show "fst (sync env dir (Some p) rc s) = True" by (rule sync_listing_fails_at(1)[OF r f])
  show "last (trace (snd (sync env dir (Some p) rc s))) = nothing_to_do" by (rule sync_listing_fails_at(2)[OF r f])
  show "list_all (\<lambda>e. \<not> is_error e \<and> \<not> is_transfer e) (new_events s (snd (sync env dir (Some p) rc s)))"
    by (rule sync_listing_fails_at(3)[OF r f])
qed

theorem failed_listing_nothing_to_do_witness:
  "listing_fails_at (scripted_env no_repository skip_all None) demo_project False (world demo_state) \<and>
   fst (get_gitignored_files (scripted_env no_repository skip_all None) demo_project False demo_state) = [] \<and>
   (\<exists>s2. resolution_phase (scripted_env no_repository skip_all None) demo_project FromRemote True demo_state =
            (Some [], s2) \<and>
         listing_fails_at (scripted_env no_repository skip_all None) demo_project False (world s2)) \<and>
   list_all (\<lambda>e. \<not> is_error e \<and> \<not> is_transfer e)
     (new_events demo_state
        (snd (sync (scripted_env no_repository skip_all None) FromRemote (Some demo_project) True demo_state))) \<and>
   listing_fails (scripted_env no_repository skip_all None) demo_project FromRemote \<and>
   set_iter (scripted_env no_repository skip_all None) {} = [] \<and>
   fst (sync (scripted_env no_repository skip_all None) FromRemote (Some demo_project) True demo_state) = True \<and>
   last (trace (snd (sync (scripted_env no_repository skip_all None) FromRemote (Some demo_project) True demo_state))) =
     Status ''No untracked files to sync'' ''gray''"
proof -
  let ?env = "scripted_env no_repository skip_all None"
  have f: "listing_fails_at ?env demo_project local w" for local w
    by (simp add: listing_fails_at_def scripted_env_def no_repository_def)
  then have lf: "listing_fails ?env demo_project FromRemote" by (simp add: listing_fails_def)
  have si: "set_iter ?env {} = []" by (simp add: scripted_env_def)
  obtain s2 where r: "resolution_phase ?env demo_project FromRemote True demo_state = (Some [], s2)"
    using listing_fails_resolution[OF lf si, of True demo_state]
    by (cases "resolution_phase ?env demo_project FromRemote True demo_state") simp
  note t = failed_listing_nothing_to_do[of ?env demo_project False demo_state FromRemote True "[]" s2]
  have 1: "fst (get_gitignored_files ?env demo_project False demo_state) = []"
    using t f by blast
  have 2: "fst (sync ?env FromRemote (Some demo_project) True demo_state) = True"
    using t lf si by blast
  have 3: "last (trace (snd (sync ?env FromRemote (Some demo_project) True demo_state))) =
     Status ''No untracked files to sync'' ''gray''"
    using t lf si unfolding nothing_to_do_def by blast
  have 4: "list_all (\<lambda>e. \<not> is_error e \<and> \<not> is_transfer e)
     (new_events demo_state (snd (sync ?env FromRemote (Some demo_project) True demo_state)))"
    using t r f[of False "world s2"] by simp
  have 5: "\<exists>s2. resolution_phase ?env demo_project FromRemote True demo_state = (Some [], s2) \<and>
         listing_fails_at ?env demo_project False (world s2)"
    using r f by blast
  show ?thesis
    by (intro conjI f lf si 1 2 3 4 5)
qed

section \<open>Cancelling the conflict dialog\<close>






section \<open>Pushing\<close>



lemma push_event_distinct [simp]:
  "push_event p \<noteq> status_event p" "push_event p \<noteq> commit_event p m"
  "status_event p \<noteq> push_event p" "commit_event p m \<noteq> push_event p"
  "push_event p \<noteq> Status msg color" "push_event p \<noteq> ShowError title msg"
  "Status msg color \<noteq> push_event p" "ShowError title msg \<noteq> push_event p"
  by (simp_all add: push_event_def status_event_def commit_event_def push_cmd_def commit_cmd_def)









section \<open>Full sync: the pipeline\<close>

lemma quietly_refl [simp]: "quietly s s"
  by (simp add: quietly_def)

lemma quietly_trans: "quietly s s1 \<Longrightarrow> quietly s1 s2 \<Longrightarrow> quietly s s2"
  by (auto simp: quietly_def)

lemma quietly_status [simp]: "quietly s (set_status msg color s)"
  by (simp add: quietly_def set_status_def emit_def)

lemma quietly_showerror [simp]: "quietly s (showerror title msg s)"
  by (simp add: quietly_def showerror_def emit_def)

lemma quietly_world [simp]: "quietly s (s\<lparr>world := w\<rparr>)"
  by (simp add: quietly_def)

lemma quietly_run: "quietly s (snd (run_command env cmd cwd s))"
  by (simp add: quietly_def run_command_trace)

lemma quietly_status_then: "quietly (set_status msg color s) s' \<Longrightarrow> quietly s s'"
  by (rule quietly_trans[OF quietly_status])

lemma quietly_then_status: "quietly s s' \<Longrightarrow> quietly s (set_status msg color s')"
  by (erule quietly_trans) simp

lemma quietly_then_showerror: "quietly s s' \<Longrightarrow> quietly s (showerror title msg s')"
  by (erule quietly_trans) simp

lemma quietly_then_failed:
  "quietly s s' \<Longrightarrow> quietly s (showerror title msg (set_status m color s'))"
  by (rule quietly_then_showerror) (rule quietly_then_status)

lemma quietly_get_git_status: "quietly s (snd (get_git_status env p s))"
  using quietly_run[of s env "''git status --porcelain''" "Some (local_path p)"]
  by (auto simp: get_git_status_def split: prod.splits)

lemma quietly_push_branch: "quietly s (snd (push_branch env p s))"
proof -
  let ?s0 = "set_status ''Pushing to remote...'' ''blue'' s"
  have "quietly s (snd (run_command env (push_cmd p) (Some (local_path p)) ?s0))"
    by (rule quietly_status_then) (rule quietly_run)
  then show ?thesis
    by (auto simp: push_branch_def split: prod.splits intro!: quietly_then_status quietly_then_failed)
qed

lemma quietly_pull_branch: "quietly s (snd (pull_branch env p s))"
proof -
  let ?s0 = "set_status ''Pulling from remote...'' ''blue'' s"
  have "quietly s (snd (run_command env (pull_cmd p) (Some (local_path p)) ?s0))"
    by (rule quietly_status_then) (rule quietly_run)
  then show ?thesis
    by (auto simp: pull_branch_def split: prod.splits intro!: quietly_then_status quietly_then_failed)
qed

lemma quietly_git_pull: "quietly s (snd (git_pull env cp s))"
proof (cases cp)
  case None
  then show ?thesis by (simp add: git_pull_def)
next
  case (Some p)
  obtain d sm s1 where g: "get_git_status env p s = ((d, sm), s1)"
    by (cases "get_git_status env p s") auto
  have q1: "quietly s s1" using quietly_get_git_status[of s env p] g by simp
  obtain yes w2 where a: "askyesno env ''Warning'' pull_warning (world s1) = (yes, w2)"
    by (cases "askyesno env ''Warning'' pull_warning (world s1)")
  have q2: "quietly s (s1\<lparr>world := w2\<rparr>)" by (rule quietly_trans[OF q1]) simp
  show ?thesis
    using quietly_trans[OF q1 quietly_pull_branch[of s1 env p]]
      quietly_trans[OF q2 quietly_pull_branch[of "s1\<lparr>world := w2\<rparr>" env p]]
      quietly_then_status[OF q2]
    by (simp add: git_pull_def Some g a)
qed

lemma quietly_git_push: "quietly s (snd (git_push env cp skip s))"
proof (cases cp)
  case None
  then show ?thesis by (simp add: git_push_def)
next
  case (Some p)
  let ?s0 = "set_status ''Checking for uncommitted changes...'' ''blue'' s"
  obtain d sm s1 where g: "get_git_status env p ?s0 = ((d, sm), s1)"
    by (cases "get_git_status env p ?s0") auto
  have q1: "quietly s s1"
    using quietly_status_then[OF quietly_get_git_status[of ?s0 env p]] g by simp
  obtain result w2 where c: "commit_dialog env sm (world s1) = (result, w2)"
    by (cases "commit_dialog env sm (world s1)")
  let ?s2 = "s1\<lparr>world := w2\<rparr>"
  have q2: "quietly s ?s2" by (rule quietly_trans[OF q1]) simp
  let ?cmd = "commit_cmd (str_replace (CHR 0x22) [CHR 0x5C, CHR 0x22] (the result))"
  obtain ok out s3 where r: "run_command env ?cmd (Some (local_path p))
        (set_status ''Committing changes...'' ''blue'' ?s2) = ((ok, out), s3)"
    by (cases "run_command env ?cmd (Some (local_path p)) (set_status ''Committing changes...'' ''blue'' ?s2)") auto
  have q3: "quietly s s3"
    using quietly_trans[OF q2 quietly_status_then[OF quietly_run[of "set_status ''Committing changes...'' ''blue'' ?s2" env ?cmd "Some (local_path p)"]]] r
    by simp
  show ?thesis
    using quietly_trans[OF q1 quietly_push_branch[of s1 env p]]
      quietly_trans[OF q3 quietly_push_branch[of s3 env p]]
      quietly_then_status[OF q2]
      quietly_then_failed[OF q3]
    by (simp add: git_push_def Some g c r Let_def)
qed

lemma quietly_transfer: "quietly s (snd (transfer env p dir exclude_files s))"
proof (cases "filter (\<lambda>f. f \<notin> set exclude_files) (authoritative_files env p dir s) = []")
  case True
  from transfer_nothing(2)[OF True] show ?thesis
    by (simp add: quietly_def syncing_status_def listing_event_def nothing_to_do_def)
next
  case False
  from transfer_some[OF refl False]
  obtain report where r: "trace (snd (transfer env p dir exclude_files s)) =
       trace s @ [syncing_status dir, listing_event p dir,
         TempFile (temp_file_of env p dir (filter (\<lambda>f. f \<notin> set exclude_files) (authoritative_files env p dir s)) s)
           (str_join newline (filter (\<lambda>f. f \<notin> set exclude_files) (authoritative_files env p dir s))),
         Run (rsync_cmd dir p (temp_file_of env p dir (filter (\<lambda>f. f \<notin> set exclude_files) (authoritative_files env p dir s)) s)) None]
        @ report @
        [Unlink (temp_file_of env p dir (filter (\<lambda>f. f \<notin> set exclude_files) (authoritative_files env p dir s)) s)]"
    and rep: "list_all is_report report"
    by blast
  have "list_all (\<lambda>e. \<not> is_info e) report"
    using rep by (induction report) (auto elim: is_report.elims)
  then show ?thesis
    unfolding quietly_def r
    by (simp add: syncing_status_def listing_event_def)
qed

lemma quietly_sync: "quietly s (snd (sync env dir cp rc s))"
proof (cases cp)
  case None
  then show ?thesis by (simp add: sync_def)
next
  case (Some p)
  obtain res s2 where r: "resolution_phase env p dir rc s = (res, s2)"
    by (cases "resolution_phase env p dir rc s")
  from resolution_phase_events[of env p dir rc s] r
  obtain evs where ev: "trace s2 = trace s @ Status ''Checking for conflicts...'' ''blue'' # evs"
    "list_all is_query evs" by auto
  have "list_all (\<lambda>e. \<not> is_info e) evs"
    using ev(2) by (induction evs) (auto simp: is_query_def elim: is_command.elims)
  then have q2: "quietly s s2" using ev(1) by (simp add: quietly_def)
  show ?thesis
    using quietly_then_status[OF q2] quietly_trans[OF q2 quietly_transfer[of s2 env p dir]]
    by (simp add: Some sync_phases r split: option.splits)
qed


lemma run_steps_append_failed:
  assumes "run_steps pre s = (True, s1)"
    and "step_func (started step_name s1) = (False, s2)"
  shows "run_steps (pre @ (step_name, step_func) # later) s = (False, stopped step_name s2)"
  using assms
proof (induction pre arbitrary: s)
  case Nil
  then show ?case by (simp add: started_def stopped_def)
next
  case (Cons x pre)
  obtain n f where x: "x = (n, f)" by (cases x)
  obtain ok s' where f: "f (set_status (n @ ''...'') ''blue'' s) = (ok, s')"
    by (cases "f (set_status (n @ ''...'') ''blue'' s)")
  from Cons.prems(1) have ok: "ok" and r: "run_steps pre s' = (True, s1)"
    by (auto simp: x f split: if_splits)
  from Cons.IH[OF r Cons.prems(2)] show ?case by (simp add: x f ok)
qed

lemma quietly_no_box: "quietly s s' \<Longrightarrow> success_box \<notin> set (new_events s s')"
  by (force simp: quietly_def new_events_def success_box_def list_all_iff)

lemma quietly_started: "quietly (started n s) s' \<Longrightarrow> quietly s s'"
  unfolding started_def by (rule quietly_status_then)

lemma quietly_stopped: "quietly s s' \<Longrightarrow> quietly s (stopped n s')"
  unfolding stopped_def by (rule quietly_then_status)

lemma completed_box: "quietly s s' \<Longrightarrow> success_box \<in> set (new_events s (completed s'))"
  by (auto simp: quietly_def new_events_def completed_def showinfo_def set_status_def emit_def success_box_def)

text \<open>
  Claim C4. Name what each of the four steps returns, each started in the state the step
  before it left. Then: the steps are, in this order, sync to remote, push, pull, sync
  from remote; the full sync ends in the state left by the first step that did not
  succeed, plus the status "Full sync stopped at: ...", and in the state left by the
  fourth step plus the success report when all four succeeded; when a step fails the run
  is the same whatever steps come after it (they are not invoked); and the success box is
  among the events of the full sync exactly when all four steps succeeded.
\<close>

theorem full_sync_pipeline:
  assumes "sync_to_remote env (Some p) True (started ''Syncing untracked to remote'' s) = (ok1, s1)"
    and "git_push env (Some p) False (started ''Pushing to git'' s1) = (ok2, s2)"
    and "git_pull env (Some p) (started ''Pulling from git'' s2) = (ok3, s3)"
    and "sync_from_remote env (Some p) True (started ''Syncing untracked from remote'' s3) = (ok4, s4)"
  shows "map fst (steps env (Some p)) =
           [''Syncing untracked to remote'', ''Pushing to git'', ''Pulling from git'',
            ''Syncing untracked from remote''] \<and>
         full_sync env (Some p) s =
           (if \<not> ok1 then stopped ''Syncing untracked to remote'' s1
            else if \<not> ok2 then stopped ''Pushing to git'' s2
            else if \<not> ok3 then stopped ''Pulling from git'' s3
            else if \<not> ok4 then stopped ''Syncing untracked from remote'' s4
            else completed s4) \<and>
         (\<not> ok1 \<longrightarrow> (\<forall>later. run_steps (take 1 (steps env (Some p)) @ later) s =
                                run_steps (steps env (Some p)) s)) \<and>
         (ok1 \<and> \<not> ok2 \<longrightarrow> (\<forall>later. run_steps (take 2 (steps env (Some p)) @ later) s =
                                      run_steps (steps env (Some p)) s)) \<and>
         (ok1 \<and> ok2 \<and> \<not> ok3 \<longrightarrow> (\<forall>later. run_steps (take 3 (steps env (Some p)) @ later) s =
                                            run_steps (steps env (Some p)) s)) \<and>
         (success_box \<in> set (new_events s (full_sync env (Some p) s)) \<longleftrightarrow> ok1 \<and> ok2 \<and> ok3 \<and> ok4)"
proof -
  let ?n1 = "''Syncing untracked to remote''" and ?n2 = "''Pushing to git''"
  let ?n3 = "''Pulling from git''" and ?n4 = "''Syncing untracked from remote''"
  let ?f1 = "sync_to_remote env (Some p) True" and ?f2 = "git_push env (Some p) False"
  let ?f3 = "git_pull env (Some p)" and ?f4 = "sync_from_remote env (Some p) True"
  have st: "steps env (Some p) = [(?n1, ?f1), (?n2, ?f2), (?n3, ?f3), (?n4, ?f4)]"
    by (simp add: steps_def)
  have names: "map fst (steps env (Some p)) = [?n1, ?n2, ?n3, ?n4]" by (simp add: st)
  have a: "?f1 (set_status (?n1 @ ''...'') ''blue'' s) = (ok1, s1)"
    "?f2 (set_status (?n2 @ ''...'') ''blue'' s1) = (ok2, s2)"
    "?f3 (set_status (?n3 @ ''...'') ''blue'' s2) = (ok3, s3)"
    "?f4 (set_status (?n4 @ ''...'') ''blue'' s3) = (ok4, s4)"
    using assms by (simp_all only: started_def)
  have a': "?f1 (set_status ''Syncing untracked to remote...'' ''blue'' s) = (ok1, s1)"
    "?f2 (set_status ''Pushing to git...'' ''blue'' s1) = (ok2, s2)"
    "?f3 (set_status ''Pulling from git...'' ''blue'' s2) = (ok3, s3)"
    "?f4 (set_status ''Syncing untracked from remote...'' ''blue'' s3) = (ok4, s4)"
    using assms by (simp_all add: started_def)
  have run: "run_steps (steps env (Some p)) s =
           (if \<not> ok1 then (False, stopped ?n1 s1)
            else if \<not> ok2 then (False, stopped ?n2 s2)
            else if \<not> ok3 then (False, stopped ?n3 s3)
            else if \<not> ok4 then (False, stopped ?n4 s4)
            else (True, s4))"
    unfolding st by (simp only: run_steps.simps a prod.case stopped_def)
  have full: "full_sync env (Some p) s =
           (if \<not> ok1 then stopped ?n1 s1
            else if \<not> ok2 then stopped ?n2 s2
            else if \<not> ok3 then stopped ?n3 s3
            else if \<not> ok4 then stopped ?n4 s4
            else completed s4)"
    by (simp add: full_sync_def run completed_def)
  have h1: "run_steps (take 1 (steps env (Some p)) @ later) s = run_steps (steps env (Some p)) s"
    if "\<not> ok1" for later
  proof -
    have t: "take 1 (steps env (Some p)) @ later = [] @ (?n1, ?f1) # later" by (simp add: st)
    have f: "?f1 (started ?n1 s) = (False, s1)" using assms(1) that by simp
    have "run_steps ([] @ (?n1, ?f1) # later) s = (False, stopped ?n1 s1)"
      by (rule run_steps_append_failed[of "[]" s s ?f1 ?n1 s1 later]) (simp_all add: f)
    then show ?thesis unfolding t run using that by simp
  qed
  have h2: "run_steps (take 2 (steps env (Some p)) @ later) s = run_steps (steps env (Some p)) s"
    if "ok1" "\<not> ok2" for later
  proof -
    have t: "take 2 (steps env (Some p)) @ later = [(?n1, ?f1)] @ (?n2, ?f2) # later" by (simp add: st)
    have f: "?f2 (started ?n2 s1) = (False, s2)" using assms(2) that by simp
    have "run_steps ([(?n1, ?f1)] @ (?n2, ?f2) # later) s = (False, stopped ?n2 s2)"
      by (rule run_steps_append_failed[of "[(?n1, ?f1)]" s s1 ?f2 ?n2 s2 later]) (simp_all add: f a' that)
    then show ?thesis unfolding t run using that by simp
  qed
  have h3: "run_steps (take 3 (steps env (Some p)) @ later) s = run_steps (steps env (Some p)) s"
    if "ok1" "ok2" "\<not> ok3" for later
  proof -
    have t: "take 3 (steps env (Some p)) @ later = [(?n1, ?f1), (?n2, ?f2)] @ (?n3, ?f3) # later"
      by (simp add: st)
    have f: "?f3 (started ?n3 s2) = (False, s3)" using assms(3) that by simp
    have "run_steps ([(?n1, ?f1), (?n2, ?f2)] @ (?n3, ?f3) # later) s = (False, stopped ?n3 s3)"
      by (rule run_steps_append_failed[of "[(?n1, ?f1), (?n2, ?f2)]" s s2 ?f3 ?n3 s3 later])
        (simp_all add: f a' that)
    then show ?thesis unfolding t run using that by simp
  qed
  have q1: "quietly s s1"
    using quietly_sync[of "started ?n1 s" env ToRemote "Some p" True] assms(1)
    by (auto simp: sync_to_remote_def intro: quietly_started)
  have q2: "quietly s s2"
    using quietly_git_push[of "started ?n2 s1" env "Some p" False] assms(2)
    by (auto intro: quietly_trans[OF q1] quietly_started)
  have q3: "quietly s s3"
    using quietly_git_pull[of "started ?n3 s2" env "Some p"] assms(3)
    by (auto intro: quietly_trans[OF q2] quietly_started)
  have q4: "quietly s s4"
    using quietly_sync[of "started ?n4 s3" env FromRemote "Some p" True] assms(4)
    by (auto simp: sync_from_remote_def intro: quietly_trans[OF q3] quietly_started)
  have box: "success_box \<in> set (new_events s (full_sync env (Some p) s)) \<longleftrightarrow> ok1 \<and> ok2 \<and> ok3 \<and> ok4"
    unfolding full
    using quietly_no_box[OF quietly_stopped[OF q1]] quietly_no_box[OF quietly_stopped[OF q2]]
      quietly_no_box[OF quietly_stopped[OF q3]] quietly_no_box[OF quietly_stopped[OF q4]]
      completed_box[OF q4]
    by auto
  from names full h1 h2 h3 box show ?thesis by blast
qed


lemma pipeline_listing: "listing_fails (pipeline_env code) demo_project dir"
  by (simp add: listing_fails_def listing_fails_at_def pipeline_env_def scripted_env_def
      pipeline_respond_def push_cmd_def ls_files_cmd_def remote_ls_files_cmd_def strip_def)

lemma pipeline_sync: "fst (sync (pipeline_env code) dir (Some demo_project) True s) = True"
proof -
  have si: "set_iter (pipeline_env code) {} = []" by (simp add: pipeline_env_def scripted_env_def)
  obtain s2 where r: "resolution_phase (pipeline_env code) demo_project dir True s = (Some [], s2)"
    using listing_fails_resolution[OF pipeline_listing si, of dir True s]
    by (cases "resolution_phase (pipeline_env code) demo_project dir True s") simp
  have f: "listing_fails_at (pipeline_env code) demo_project (dir = ToRemote) (world s2)"
    using pipeline_listing[of code dir] by (simp add: listing_fails_def)
  show ?thesis by (rule sync_listing_fails_at(1)[OF r f])
qed

lemma pipeline_push: "fst (git_push (pipeline_env code) (Some demo_project) False s) = (code = 0)"
  by (simp add: git_push_def get_git_status_def push_branch_def run_command_def pipeline_env_def
      scripted_env_def pipeline_respond_def push_cmd_def strip_def split: prod.splits)

lemma pipeline_pull: "fst (git_pull (pipeline_env code) (Some demo_project) s) = True"
  by (simp add: git_pull_def get_git_status_def pull_branch_def run_command_def pipeline_env_def
      scripted_env_def pipeline_respond_def push_cmd_def pull_cmd_def strip_def split: prod.splits)

theorem full_sync_pipeline_witness:
  "fst (sync_to_remote (pipeline_env 1) (Some demo_project) True
          (started ''Syncing untracked to remote'' demo_state)) = True \<and>
   fst (git_push (pipeline_env 1) (Some demo_project) False
          (started ''Pushing to git''
             (snd (sync_to_remote (pipeline_env 1) (Some demo_project) True
                     (started ''Syncing untracked to remote'' demo_state))))) = False \<and>
   full_sync (pipeline_env 1) (Some demo_project) demo_state =
     stopped ''Pushing to git''
       (snd (git_push (pipeline_env 1) (Some demo_project) False
               (started ''Pushing to git''
                  (snd (sync_to_remote (pipeline_env 1) (Some demo_project) True
                          (started ''Syncing untracked to remote'' demo_state)))))) \<and>
   run_steps (take 2 (steps (pipeline_env 1) (Some demo_project)) @ []) demo_state =
     run_steps (steps (pipeline_env 1) (Some demo_project)) demo_state \<and>
   success_box \<notin> set (new_events demo_state (full_sync (pipeline_env 1) (Some demo_project) demo_state)) \<and>
   success_box \<in> set (new_events demo_state (full_sync (pipeline_env 0) (Some demo_project) demo_state))"
proof -
  have inst: "\<exists>ok1 s1 ok2 s2 ok3 s3 ok4 s4.
      sync_to_remote (pipeline_env code) (Some demo_project) True (started ''Syncing untracked to remote'' demo_state) = (ok1, s1) \<and>
      git_push (pipeline_env code) (Some demo_project) False (started ''Pushing to git'' s1) = (ok2, s2) \<and>
      git_pull (pipeline_env code) (Some demo_project) (started ''Pulling from git'' s2) = (ok3, s3) \<and>
      sync_from_remote (pipeline_env code) (Some demo_project) True (started ''Syncing untracked from remote'' s3) = (ok4, s4)"
    for code
    by (metis prod.collapse)
  from inst[of 1] obtain ok1 s1 ok2 s2 ok3 s3 ok4 s4 where
    a: "sync_to_remote (pipeline_env 1) (Some demo_project) True (started ''Syncing untracked to remote'' demo_state) = (ok1, s1)"
       "git_push (pipeline_env 1) (Some demo_project) False (started ''Pushing to git'' s1) = (ok2, s2)"
       "git_pull (pipeline_env 1) (Some demo_project) (started ''Pulling from git'' s2) = (ok3, s3)"
       "sync_from_remote (pipeline_env 1) (Some demo_project) True (started ''Syncing untracked from remote'' s3) = (ok4, s4)"
    by blast
  have ok1: "ok1" using pipeline_sync[of 1 ToRemote "started ''Syncing untracked to remote'' demo_state"] a(1)
    by (simp add: sync_to_remote_def)
  have ok2: "\<not> ok2" using pipeline_push[of 1 "started ''Pushing to git'' s1"] a(2) by simp
  note ta = full_sync_pipeline[OF a]
  from inst[of 0] obtain ok1' s1' ok2' s2' ok3' s3' ok4' s4' where
    b: "sync_to_remote (pipeline_env 0) (Some demo_project) True (started ''Syncing untracked to remote'' demo_state) = (ok1', s1')"
       "git_push (pipeline_env 0) (Some demo_project) False (started ''Pushing to git'' s1') = (ok2', s2')"
       "git_pull (pipeline_env 0) (Some demo_project) (started ''Pulling from git'' s2') = (ok3', s3')"
       "sync_from_remote (pipeline_env 0) (Some demo_project) True (started ''Syncing untracked from remote'' s3') = (ok4', s4')"
    by blast
  have ok1': "ok1'" using pipeline_sync[of 0 ToRemote "started ''Syncing untracked to remote'' demo_state"] b(1)
    by (simp add: sync_to_remote_def)
  have ok2': "ok2'" using pipeline_push[of 0 "started ''Pushing to git'' s1'"] b(2) by simp
  have ok3': "ok3'" using pipeline_pull[of 0 "started ''Pulling from git'' s2'"] b(3) by simp
  have ok4': "ok4'" using pipeline_sync[of 0 FromRemote "started ''Syncing untracked from remote'' s3'"] b(4)
    by (simp add: sync_from_remote_def)
  note tb = full_sync_pipeline[OF b]
  have 1: "fst (sync_to_remote (pipeline_env 1) (Some demo_project) True
          (started ''Syncing untracked to remote'' demo_state)) = True"
    using a(1) ok1 by simp
  have 2: "fst (git_push (pipeline_env 1) (Some demo_project) False
          (started ''Pushing to git''
             (snd (sync_to_remote (pipeline_env 1) (Some demo_project) True
                     (started ''Syncing untracked to remote'' demo_state))))) = False"
    using a(1,2) ok2 by simp
  have 3: "full_sync (pipeline_env 1) (Some demo_project) demo_state =
     stopped ''Pushing to git''
       (snd (git_push (pipeline_env 1) (Some demo_project) False
               (started ''Pushing to git''
                  (snd (sync_to_remote (pipeline_env 1) (Some demo_project) True
                          (started ''Syncing untracked to remote'' demo_state))))))"
    using ta ok1 ok2 a(1,2) by simp
  have 4: "run_steps (take 2 (steps (pipeline_env 1) (Some demo_project)) @ []) demo_state =
     run_steps (steps (pipeline_env 1) (Some demo_project)) demo_state"
    using ta ok1 ok2 by blast
  have 5: "success_box \<notin> set (new_events demo_state (full_sync (pipeline_env 1) (Some demo_project) demo_state))"
    using ta ok2 by blast
  have 6: "success_box \<in> set (new_events demo_state (full_sync (pipeline_env 0) (Some demo_project) demo_state))"
    using tb ok1' ok2' ok3' ok4' by blast
  show ?thesis
    by (intro conjI 1 2 3 4 5 6)
qed

end
